theory Spec2Isabelle
  imports Main "HOL-Library.Multiset"
begin

section \<open>Data model\<close>

text \<open>
  The build command of coltrane (\<^verbatim>\<open>coltrane/management/commands/build.py\<close>) renders
  every content file to HTML, skipping the files whose fingerprint in the manifest
  is current. Source paths are strings. A Python exception is the name of its class
  and its \<^verbatim>\<open>str()\<close>; a call that may raise returns \<open>exn + 'a\<close>, with \<open>Inl\<close> the exception.
\<close>

type_synonym path = string

datatype exn = Exn (class_name: string) (message: string)

text \<open>What Python raises for an attribute of \<^verbatim>\<open>None\<close>, and for a name that is not bound.\<close>

definition none_has_no_attribute :: "string \<Rightarrow> exn" where
  "none_has_no_attribute name =
     Exn ''AttributeError''
       ([CHR 0x27] @ ''NoneType'' @ [CHR 0x27] @ '' object has no attribute '' @ [CHR 0x27] @ name @ [CHR 0x27])"

definition name_is_not_defined :: "string \<Rightarrow> exn" where
  "name_is_not_defined name =
     Exn ''NameError'' (''name '' @ [CHR 0x27] @ name @ [CHR 0x27] @ '' is not defined'')"

text \<open>
  Modelled from the spec: \<^verbatim>\<open>coltrane.manifest.ManifestItem\<close> is imported by the command
  but its module is not among the sources. The spec's FileFingerprint is a
  modification time and a content hash; the two are only ever compared for equality.
\<close>

record ManifestItem =
  mtime :: int
  md5 :: string

text \<open>
  Modelled from the spec: \<^verbatim>\<open>coltrane.manifest.Manifest\<close> (module not among the sources):
  a mapping from path to record, the dirty flag, and the flag that tells whether the
  static assets changed. A manifest object and a record count as true where the
  command tests them (\<^verbatim>\<open>assert self.manifest\<close>, \<^verbatim>\<open>if existing_item\<close>).
\<close>

record Manifest =
  items :: "path \<rightharpoonup> ManifestItem"
  is_dirty :: bool
  static_files_manifest_changed :: bool

text \<open>\<^verbatim>\<open>output_result_counts = SimpleNamespace(create_count=0, update_count=0, skip_count=0)\<close>\<close>

record counts =
  create_count :: int
  update_count :: int
  skip_count :: int

text \<open>The attributes of the \<^verbatim>\<open>Command\<close> object.\<close>

record Command =
  is_force :: bool
  threads_count :: int
  manifest :: "Manifest option"
  output_result_counts :: counts

definition Command_new :: Command where
  "Command_new =
     \<lparr>is_force = False, threads_count = 2, manifest = None,
      output_result_counts = \<lparr>create_count = 0, update_count = 0, skip_count = 0\<rparr>\<rparr>"

subsection \<open>The world outside the command\<close>

text \<open>
  Symbolic paths for the settings that \<^verbatim>\<open>_set_output_directory\<close> writes:
  \<^verbatim>\<open>get_base_directory()\<close>, \<^verbatim>\<open>Path(s)\<close> and \<^verbatim>\<open>p / s\<close>.
\<close>

datatype pathexpr = BaseDirectory | PathOf string | Div pathexpr string

text \<open>
  The part of the Django settings the command touches. \<^verbatim>\<open>COLTRANE\<close> is \<open>None\<close> when the
  attribute is missing; of the dictionary only the \<^verbatim>\<open>"OUTPUT"\<close> entry is kept, itself a
  dictionary from strings to strings.
\<close>

record settings =
  COLTRANE :: "(string \<rightharpoonup> (string \<rightharpoonup> string)) option"
  STATIC_ROOT :: "pathexpr option"
  DEBUG :: bool

text \<open>Calls to the collaborators, in the order they are made.\<close>

datatype call =
  CallRender path
  | CallWriteText path string
  | CallAdd path
  | CallWriteData

text \<open>What the command prints: writes to its stdout (with a style and an ending) and the spinner's lines.\<close>

datatype style = Plain | WARNING | SUCCESS

datatype out_event =
  StdoutWrite style string string
  | SpinnerStart string
  | SpinnerText string
  | SpinnerSucceed "string option"
  | SpinnerFail string

text \<open>
  The mutable world: the settings, the generated files, the manifest file
  (\<open>None\<close> when there is none yet), the calls made and the console.
\<close>

record world =
  settings :: settings
  outputs :: "path \<rightharpoonup> string"
  manifest_file :: "(path \<rightharpoonup> ManifestItem) option"
  calls :: "call list"
  console :: "out_event list"

text \<open>
  What the command reads and cannot change: the answers of the collaborators whose
  code is outside the command. \<open>fingerprint\<close>, \<open>render_html\<close> and
  \<open>generated_file_path\<close> stand for the methods of \<^verbatim>\<open>ManifestItem\<close> and
  \<open>write_text_error\<close> for a failing write of a generated file;
  \<open>get_content_paths\<close> is what content discovery yields; \<open>collectstatic\<close> is the
  output of the \<^verbatim>\<open>collectstatic\<close> command, or what it raised, and
  \<open>static_set_changed\<close> whether it changed the static files; then come
  \<^verbatim>\<open>cpu_count()\<close>, Python's \<^verbatim>\<open>int\<close> on the strings for which its answer depends on the
  version and the settings of Python (see \<open>py_int\<close>), the functions of \<^verbatim>\<open>coltrane.config.paths\<close>, the failures of
  \<^verbatim>\<open>mkdir\<close> and of reading and writing the manifest file, and the elapsed time as
  \<^verbatim>\<open>:.4f\<close> prints it.
\<close>

record env =
  fingerprint :: "path \<Rightarrow> exn + ManifestItem"
  render_html :: "path \<Rightarrow> exn + string"
  generated_file_path :: "path \<Rightarrow> path"
  write_text_error :: "path \<Rightarrow> exn option"
  get_content_paths :: "path list"
  collectstatic :: "exn + string"
  static_set_changed :: bool
  cpu_count :: "exn + int"
  python_int :: "string \<Rightarrow> int option"
  get_output_directory :: "settings \<Rightarrow> path"
  get_output_static_directory :: "settings \<Rightarrow> path"
  mkdir_error :: "path \<Rightarrow> exn option"
  load_error :: "exn option"
  write_data_error :: "exn option"
  elapsed_time :: string

type_synonym state = "Command \<times> world"

section \<open>The manifest\<close>

text \<open>
  Modelled from the spec: \<^verbatim>\<open>ManifestItem.create(path)\<close>, the fingerprint of a file; it
  fails when the file cannot be read.
\<close>

definition ManifestItem_create :: "env \<Rightarrow> path \<Rightarrow> exn + ManifestItem" where
  "ManifestItem_create E p = fingerprint E p"

text \<open>
  Modelled from the spec: \<^verbatim>\<open>Manifest(manifest_file=...)\<close>. No manifest file gives the
  empty manifest. A loaded manifest is not dirty.
\<close>

definition Manifest_load :: "env \<Rightarrow> world \<Rightarrow> exn + Manifest" where
  "Manifest_load E w =
     (case load_error E of
        Some e \<Rightarrow> Inl e
      | None \<Rightarrow>
          Inr \<lparr>items = (case manifest_file w of None \<Rightarrow> Map.empty | Some m \<Rightarrow> m),
               is_dirty = False,
               static_files_manifest_changed = static_set_changed E\<rparr>)"

text \<open>Modelled from the spec: \<^verbatim>\<open>Manifest.get(path)\<close>, a point lookup without side effects.\<close>

definition Manifest_get :: "Manifest \<Rightarrow> path \<Rightarrow> ManifestItem option" where
  "Manifest_get m p = items m p"

text \<open>
  Modelled from the spec: \<^verbatim>\<open>Manifest.add(path)\<close> computes a fresh fingerprint of the
  path, upserts the record and sets the dirty flag.
\<close>

definition Manifest_add :: "env \<Rightarrow> Manifest \<Rightarrow> path \<Rightarrow> exn + Manifest" where
  "Manifest_add E m p =
     (case ManifestItem_create E p of
        Inl e \<Rightarrow> Inl e
      | Inr item \<Rightarrow> Inr (m\<lparr>items := (items m)(p \<mapsto> item), is_dirty := True\<rparr>))"

text \<open>Modelled from the spec: \<^verbatim>\<open>Manifest.write_data()\<close> writes the mapping to the manifest file.\<close>

definition Manifest_write_data :: "env \<Rightarrow> Manifest \<Rightarrow> world \<Rightarrow> exn option \<times> world" where
  "Manifest_write_data E m w =
     (let w1 = w\<lparr>calls := calls w @ [CallWriteData]\<rparr>
      in case write_data_error E of
           Some e \<Rightarrow> (Some e, w1)
         | None \<Rightarrow> (None, w1\<lparr>manifest_file := Some (items m)\<rparr>))"

section \<open>Building one file\<close>

definition incr_create :: "state \<Rightarrow> state" where
  "incr_create s =
     (case s of (self, w) \<Rightarrow>
        (self\<lparr>output_result_counts :=
           (output_result_counts self)\<lparr>create_count := create_count (output_result_counts self) + 1\<rparr>\<rparr>, w))"

definition incr_update :: "state \<Rightarrow> state" where
  "incr_update s =
     (case s of (self, w) \<Rightarrow>
        (self\<lparr>output_result_counts :=
           (output_result_counts self)\<lparr>update_count := update_count (output_result_counts self) + 1\<rparr>\<rparr>, w))"

definition incr_skip :: "state \<Rightarrow> state" where
  "incr_skip s =
     (case s of (self, w) \<Rightarrow>
        (self\<lparr>output_result_counts :=
           (output_result_counts self)\<lparr>skip_count := skip_count (output_result_counts self) + 1\<rparr>\<rparr>, w))"

definition record_call :: "call \<Rightarrow> state \<Rightarrow> state" where
  "record_call c s = (case s of (self, w) \<Rightarrow> (self, w\<lparr>calls := calls w @ [c]\<rparr>))"

text \<open>\<^verbatim>\<open>self.manifest.add(markdown_file)\<close>: the manifest object is updated in place.\<close>

definition manifest_add :: "env \<Rightarrow> path \<Rightarrow> state \<Rightarrow> exn option \<times> state" where
  "manifest_add E markdown_file s =
     (case record_call (CallAdd markdown_file) s of (self, w) \<Rightarrow>
        (case manifest self of
           None \<Rightarrow> (Some (none_has_no_attribute ''add''), (self, w))
         | Some m \<Rightarrow>
             (case Manifest_add E m markdown_file of
                Inl e \<Rightarrow> (Some e, (self, w))
              | Inr m' \<Rightarrow> (None, (self\<lparr>manifest := Some m'\<rparr>, w)))))"

text \<open>\<^verbatim>\<open>item.generated_file_path.write_text(rendered_html)\<close>\<close>

definition write_text :: "env \<Rightarrow> path \<Rightarrow> string \<Rightarrow> state \<Rightarrow> exn option \<times> state" where
  "write_text E file html s =
     (case record_call (CallWriteText file html) s of (self, w) \<Rightarrow>
        (case write_text_error E file of
           Some e \<Rightarrow> (Some e, (self, w))
         | None \<Rightarrow> (None, (self, w\<lparr>outputs := (outputs w)(file \<mapsto> html)\<rparr>))))"

text \<open>
  Lines 104 to 113 of \<^verbatim>\<open>_output_markdown_file\<close>: the value of \<^verbatim>\<open>is_skipped\<close>, or the
  exception that \<^verbatim>\<open>add\<close> raised, and the state reached. In the second branch the
  record is added first and the counter incremented after.
\<close>

definition check_skipped ::
  "env \<Rightarrow> path \<Rightarrow> ManifestItem \<Rightarrow> ManifestItem option \<Rightarrow> state \<Rightarrow> (exn + bool) \<times> state" where
  "check_skipped E markdown_file item existing_item s =
     (case existing_item of
        None \<Rightarrow> (Inr False, s)
      | Some existing \<Rightarrow>
          if \<not> is_force (fst s) then
            if mtime item = mtime existing then (Inr True, incr_skip s)
            else if md5 item = md5 existing then
              (case manifest_add E markdown_file s of
                 (Some e, s') \<Rightarrow> (Inl e, s')
               | (None, s') \<Rightarrow> (Inr True, incr_skip s'))
            else (Inr False, s)
          else (Inr False, s))"

text \<open>
  Lines 116 to 124: count the file as updated or created, render it, write the
  generated file, record it in the manifest. An exception leaves what was done
  before it.
\<close>

definition render_and_add ::
  "env \<Rightarrow> path \<Rightarrow> ManifestItem option \<Rightarrow> state \<Rightarrow> exn option \<times> state" where
  "render_and_add E markdown_file existing_item s =
     (let s1 = (if existing_item \<noteq> None then incr_update s else incr_create s);
          s2 = record_call (CallRender markdown_file) s1
      in case render_html E markdown_file of
           Inl e \<Rightarrow> (Some e, s2)
         | Inr rendered_html \<Rightarrow>
             (case write_text E (generated_file_path E markdown_file) rendered_html s2 of
                (Some e, s3) \<Rightarrow> (Some e, s3)
              | (None, s3) \<Rightarrow> manifest_add E markdown_file s3))"

text \<open>
  \<^verbatim>\<open>_output_markdown_file\<close>. The result is the exception the call ends with, if any
  (what \<^verbatim>\<open>future.exception()\<close> returns), and the state it leaves.
\<close>

definition output_markdown_file :: "env \<Rightarrow> path \<Rightarrow> state \<Rightarrow> exn option \<times> state" where
  "output_markdown_file E markdown_file s =
     (case manifest (fst s) of
        None \<Rightarrow> (Some (Exn ''AssertionError'' ''Manifest must be loaded first''), s)
      | Some m \<Rightarrow>
          (case ManifestItem_create E markdown_file of
             Inl e \<Rightarrow> (Some e, s)
           | Inr item \<Rightarrow>
               (let existing_item = Manifest_get m markdown_file
                in case check_skipped E markdown_file item existing_item s of
                     (Inl e, s1) \<Rightarrow> (Some e, s1)
                   | (Inr is_skipped, s1) \<Rightarrow>
                       if \<not> is_skipped then render_and_add E markdown_file existing_item s1
                       else (None, s1))))"

section \<open>Strings\<close>

text \<open>\<^verbatim>\<open>str(n)\<close> of an integer, in decimal.\<close>

fun str_nat :: "nat \<Rightarrow> string" where
  "str_nat n =
     (if n < 10 then [''0123456789'' ! n]
      else str_nat (n div 10) @ [''0123456789'' ! (n mod 10)])"

declare str_nat.simps [simp del]

definition str_int :: "int \<Rightarrow> string" where
  "str_int i = (if i < 0 then CHR ''-'' # str_nat (nat (- i)) else str_nat (nat i))"

text \<open>
  \<^verbatim>\<open>int(s)\<close> of a string of ASCII characters: the whitespace at both ends is dropped
  (space, tab, line feed, vertical tab, form feed, carriage return, and no other
  character), a sign may come first, then decimal digits, with single underscores
  allowed between two digits. \<open>None\<close> is \<^verbatim>\<open>ValueError\<close>.
\<close>

definition is_space :: "char \<Rightarrow> bool" where
  "is_space c = (c \<in> set [CHR '' '', CHR 0x09, CHR 0x0A, CHR 0x0B, CHR 0x0C, CHR 0x0D])"

definition digit_value :: "char \<Rightarrow> nat option" where
  "digit_value c =
     (let n = (of_char c :: nat) in if 48 \<le> n \<and> n \<le> 57 then Some (n - 48) else None)"

fun parse_digits :: "string \<Rightarrow> nat \<Rightarrow> nat option" where
  "parse_digits [] acc = Some acc"
| "parse_digits (c # cs) acc =
     (case digit_value c of
        Some d \<Rightarrow> parse_digits cs (10 * acc + d)
      | None \<Rightarrow>
          if c = CHR ''_'' then
            (case cs of
               [] \<Rightarrow> None
             | d # ds \<Rightarrow> if digit_value d = None then None else parse_digits cs acc)
          else None)"

definition strip :: "string \<Rightarrow> string" where
  "strip s = rev (dropWhile is_space (rev (dropWhile is_space s)))"

definition ascii_int :: "string \<Rightarrow> int option" where
  "ascii_int s =
     (let t = strip s;
          (negative, u) =
             (case t of
                [] \<Rightarrow> (False, t)
              | c # r \<Rightarrow>
                  if c = CHR ''-'' then (True, r)
                  else if c = CHR ''+'' then (False, r)
                  else (False, t))
      in case u of
           [] \<Rightarrow> None
         | c # cs \<Rightarrow>
             if digit_value c = None then None
             else map_option (\<lambda>n. if negative then - int n else int n) (parse_digits u 0))"

text \<open>
  \<^verbatim>\<open>int(s)\<close> of any string (a string is its UTF-8 bytes). On a string of at most 640
  ASCII characters every Python 3 gives the answer of \<open>ascii_int\<close>. On the other
  strings the answer depends on Python: a string with a character beyond ASCII may
  hold digits and whitespace of Unicode, whose tables grow with the versions, and a
  string with more digits than the limit is refused, the limit being 4300 unless
  set otherwise, never below 640, and absent before it was introduced. For those strings the answer is
  taken from the environment.
\<close>

definition py_int :: "env \<Rightarrow> string \<Rightarrow> int option" where
  "py_int E s =
     (if list_all (\<lambda>c. (of_char c :: nat) < 128) s \<and> length s \<le> 640 then ascii_int s
      else python_int E s)"

text \<open>\<^verbatim>\<open>s.replace(old, new)\<close>: every occurrence of \<open>old\<close>, from the left, without overlap.\<close>

function py_replace :: "string \<Rightarrow> string \<Rightarrow> string \<Rightarrow> string" where
  "py_replace old new s =
     (if old = [] then new @ concat (map (\<lambda>c. c # new) s)
      else if s = [] then []
      else if take (length old) s = old then new @ py_replace old new (drop (length old) s)
      else hd s # py_replace old new (tl s))"
  by pat_completeness auto
termination
  by (relation "measure (\<lambda>(old, new, s). length s)") auto

declare py_replace.simps [simp del]

section \<open>The command\<close>

text \<open>
  The options the command reads: \<^verbatim>\<open>--force\<close>, \<^verbatim>\<open>--threads\<close> and \<^verbatim>\<open>--output\<close> (the field
  \<open>output_dir\<close>). An option that was not given is \<open>None\<close>.
\<close>

record options =
  force :: bool
  threads :: "string option"
  output_dir :: "string option"

text \<open>The value of \<^verbatim>\<open>LogSymbols.SUCCESS\<close>, a check mark (its UTF-8 bytes).\<close>

definition LogSymbols_SUCCESS :: string where
  "LogSymbols_SUCCESS = [CHR 0xE2, CHR 0x9C, CHR 0x94]"

definition say :: "out_event \<Rightarrow> world \<Rightarrow> world" where
  "say ev w = w\<lparr>console := console w @ [ev]\<rparr>"

text \<open>\<^verbatim>\<open>_success\<close>\<close>

definition success :: "string \<Rightarrow> string \<Rightarrow> world \<Rightarrow> world" where
  "success text ending w =
     say (StdoutWrite Plain text ending) (say (StdoutWrite Plain LogSymbols_SUCCESS '' '') w)"

text \<open>
  \<^verbatim>\<open>_set_output_directory\<close>. The first assignment of \<^verbatim>\<open>STATIC_ROOT\<close> cannot raise
  \<^verbatim>\<open>KeyError\<close>, the key having just been stored; the second one does when there is no
  \<^verbatim>\<open>"DIRECTORY"\<close>, and the exception is dropped.
\<close>

definition set_output_directory :: "options \<Rightarrow> settings \<Rightarrow> settings" where
  "set_output_directory opts st =
     (case output_dir opts of
        None \<Rightarrow> st
      | Some out \<Rightarrow>
          if out = [] then st
          else
            (let c = (case COLTRANE st of None \<Rightarrow> Map.empty | Some c \<Rightarrow> c);
                 c1 = (if c ''OUTPUT'' = None then c(''OUTPUT'' \<mapsto> Map.empty) else c);
                 out_dict = (case c1 ''OUTPUT'' of None \<Rightarrow> Map.empty | Some d \<Rightarrow> d)(''PATH'' \<mapsto> out);
                 st1 = st\<lparr>COLTRANE := Some (c1(''OUTPUT'' \<mapsto> out_dict))\<rparr>;
                 st2 = st1\<lparr>STATIC_ROOT := Some (Div (Div BaseDirectory out) ''static'')\<rparr>
             in case out_dict ''DIRECTORY'' of
                  None \<Rightarrow> st2
                | Some d \<Rightarrow> st2\<lparr>STATIC_ROOT := Some (Div (PathOf d) ''static'')\<rparr>))"

text \<open>
  \<^verbatim>\<open>_call_collectstatic\<close>, run through \<^verbatim>\<open>threadpool\<close> on an executor of its own: the
  call returns a future at once, and \<^verbatim>\<open>result()\<close> gives the text or raises what the
  command raised. The task shares only \<^verbatim>\<open>settings.DEBUG\<close> with the caller, so its effect
  is applied when it is started. The text is the command's output without the
  \<^verbatim>\<open>copied to\<close> part, cut by \<^verbatim>\<open>[1:-2]\<close> and prefixed.
\<close>

definition call_collectstatic :: "env \<Rightarrow> world \<Rightarrow> (exn + string) \<times> world" where
  "call_collectstatic E w =
     (let w1 = w\<lparr>settings := (settings w)\<lparr>DEBUG := False\<rparr>\<rparr>
      in case collectstatic E of
           Inl e \<Rightarrow> (Inl e, w1)
         | Inr collectstatic_stdout \<Rightarrow>
             (let cleaned =
                    py_replace
                      ('' copied to '' @ [CHR 0x27] @ get_output_static_directory E (settings w1) @ [CHR 0x27])
                      [] collectstatic_stdout;
                  sliced = drop 1 (take (length cleaned - 2) cleaned)
              in (Inr (''Copy '' @ sliced), w1)))"

text \<open>
  Lines 200 to 209: the number of threads. A \<^verbatim>\<open>--threads\<close> value that \<^verbatim>\<open>int\<close> refuses
  and a failing \<^verbatim>\<open>cpu_count\<close> both leave \<^verbatim>\<open>threads_count\<close> as it was.
\<close>

definition resolve_threads :: "env \<Rightarrow> options \<Rightarrow> Command \<Rightarrow> Command" where
  "resolve_threads E opts self =
     (case threads opts of
        Some (c # cs) \<Rightarrow>
          (case py_int E (c # cs) of
             None \<Rightarrow> self
           | Some n \<Rightarrow> self\<lparr>threads_count := n\<rparr>)
      | _ \<Rightarrow>
          (case cpu_count E of
             Inl ex \<Rightarrow> self
           | Inr n \<Rightarrow> self\<lparr>threads_count := (n div 2) - 1\<rparr>))"

text \<open>The message of line 224.\<close>

definition error_message_of :: "path \<Rightarrow> exn \<Rightarrow> string" where
  "error_message_of p error =
     ''Rendering '' @ p @ '' failed. '' @ [CHR 0x60] @ class_name error @ '': '' @ message error @ [CHR 0x60]"

text \<open>
  The loop of lines 219 to 225. Each file is submitted to the executor and the
  loop waits for it at once (\<^verbatim>\<open>future.exception()\<close>), so a file is built before the
  next one is submitted: the submit and the wait are a call. The loop's variables
  are the list \<^verbatim>\<open>errors\<close> and \<^verbatim>\<open>error_message\<close>, unbound (\<open>None\<close>) until a file fails.
\<close>

type_synonym loop_vars = "string list \<times> string option"

fun process_paths :: "env \<Rightarrow> path list \<Rightarrow> loop_vars \<Rightarrow> state \<Rightarrow> loop_vars \<times> state" where
  "process_paths E [] vars s = (vars, s)"
| "process_paths E (p # rest) vars s =
     (case output_markdown_file E p s of
        (None, s') \<Rightarrow> process_paths E rest vars s'
      | (Some error, s') \<Rightarrow>
          process_paths E rest (fst vars @ [error_message_of p error], Some (error_message_of p error)) s')"

text \<open>
  Lines 231 and 232: one \<^verbatim>\<open>spinner.fail\<close> per collected error, each with the value of
  \<^verbatim>\<open>error_message\<close>. With an error collected the variable is bound; the other branch
  is Python's \<^verbatim>\<open>NameError\<close>.
\<close>

definition report_errors :: "loop_vars \<Rightarrow> world \<Rightarrow> exn + world" where
  "report_errors vars w =
     (case fst vars of
        [] \<Rightarrow> Inr w
      | e # es \<Rightarrow>
          (case snd vars of
             None \<Rightarrow> Inl (name_is_not_defined ''error_message'')
           | Some error_message \<Rightarrow>
               Inr (w\<lparr>console := console w @ map (\<lambda>error. SpinnerFail error_message) (fst vars)\<rparr>)))"

text \<open>Lines 159 to 182: reset, output directory, start of \<^verbatim>\<open>collectstatic\<close>, manifest.\<close>

definition handle_start :: "env \<Rightarrow> options \<Rightarrow> state \<Rightarrow> (exn + (exn + string)) \<times> state" where
  "handle_start E opts s =
     (case s of (self, w) \<Rightarrow>
        (let self1 = self\<lparr>is_force := False, manifest := None,
                          output_result_counts :=
                            (output_result_counts self)\<lparr>create_count := 0, update_count := 0, skip_count := 0\<rparr>\<rparr>;
             w1 = say (StdoutWrite WARNING (''Start generating the static site...'' @ [CHR 0x0A]) [CHR 0x0A]) w;
             w2 = w1\<lparr>settings := set_output_directory opts (settings w1)\<rparr>;
             (collectstatic_future, w3) = call_collectstatic E w2;
             output_directory = get_output_directory E (settings w3);
             w4 = say (StdoutWrite WARNING output_directory [CHR 0x0A]) (success ''Use '' [] w3)
         in case mkdir_error E output_directory of
              Some e \<Rightarrow> (Inl e, (self1, w4))
            | None \<Rightarrow>
                (let w5 = say (SpinnerStart ''Load manifest'') w4
                 in case Manifest_load E w5 of
                      Inl e \<Rightarrow> (Inl e, (self1, w5))
                    | Inr m \<Rightarrow>
                        (Inr collectstatic_future,
                         (self1\<lparr>manifest := Some m\<rparr>, say (SpinnerSucceed None) w5)))))"

text \<open>Lines 184 to 198: the force flag, from the option or from the static files.\<close>

definition handle_force :: "options \<Rightarrow> exn + string \<Rightarrow> state \<Rightarrow> exn option \<times> state" where
  "handle_force opts collectstatic_future s =
     (case s of (self, w) \<Rightarrow>
        (let (self1, w1) =
               (if force opts
                then (self\<lparr>is_force := True\<rparr>,
                      say (StdoutWrite WARNING ''--force'' [CHR 0x0A]) (success ''Force update because '' [] w))
                else (self, w));
             w2 = say (SpinnerStart ''Collect static files'') w1
         in case collectstatic_future of
              Inl e \<Rightarrow> (Some e, (self1, w2))
            | Inr collectstatic_stdout \<Rightarrow>
                (let w3 = say (SpinnerSucceed (Some collectstatic_stdout)) w2
                 in case manifest self1 of
                      None \<Rightarrow> (Some (none_has_no_attribute ''static_files_manifest_changed''), (self1, w3))
                    | Some m \<Rightarrow>
                        if \<not> is_force self1 \<and> static_files_manifest_changed m
                        then (None, (self1\<lparr>is_force := True\<rparr>,
                                     success ''Force update because static file(s) updated'' [CHR 0x0A] w3))
                        else (None, (self1, w3)))))"

text \<open>The summary of line 227 and the spinner's text of line 217.\<close>

definition result_msg :: "counts \<Rightarrow> string" where
  "result_msg c =
     ''Create '' @ str_int (create_count c) @ '' HTML files, '' @ str_int (skip_count c)
     @ '' unmodified, '' @ str_int (update_count c) @ '' updated''"

definition threads_text :: "int \<Rightarrow> string" where
  "threads_text n =
     (let pluralized_threads = (if n > 1 then ''s'' else [])
      in ''Create HTML files (use '' @ str_int n @ '' thread'' @ pluralized_threads @ '')'')"

text \<open>
  Lines 211 to 225: the executor and the loop. \<^verbatim>\<open>ThreadPoolExecutor\<close> raises
  \<^verbatim>\<open>ValueError\<close> for a number of workers that is not positive.
\<close>

definition handle_pool :: "env \<Rightarrow> state \<Rightarrow> (exn + loop_vars) \<times> state" where
  "handle_pool E s =
     (case s of (self, w) \<Rightarrow>
        (let w1 = say (SpinnerStart ''Create HTML files'') w
         in if threads_count self \<le> 0
            then (Inl (Exn ''ValueError'' ''max_workers must be greater than 0''), (self, w1))
            else
              (let w2 = say (SpinnerText (threads_text (threads_count self))) w1
               in case process_paths E (get_content_paths E) ([], None) (self, w2) of
                    (vars, s') \<Rightarrow> (Inr vars, s'))))"

text \<open>Lines 234 to 237: the manifest is written when it is dirty.\<close>

definition update_manifest :: "env \<Rightarrow> state \<Rightarrow> exn option \<times> state" where
  "update_manifest E s =
     (case s of (self, w) \<Rightarrow>
        (case manifest self of
           None \<Rightarrow> (Some (none_has_no_attribute ''is_dirty''), (self, w))
         | Some m \<Rightarrow>
             if is_dirty m
             then (case Manifest_write_data E m (say (SpinnerStart ''Update manifest'') w) of
                     (Some e, w1) \<Rightarrow> (Some e, (self, w1))
                   | (None, w1) \<Rightarrow> (None, (self, say (SpinnerSucceed None) w1)))
             else (None, (self, w))))"

text \<open>Lines 227 to 244: the summary, the errors, the manifest file, the elapsed time.\<close>

definition handle_report :: "env \<Rightarrow> loop_vars \<Rightarrow> state \<Rightarrow> exn option \<times> state" where
  "handle_report E vars s =
     (case s of (self, w) \<Rightarrow>
        (let w1 = say (SpinnerSucceed (Some (result_msg (output_result_counts self)))) w
         in case report_errors vars w1 of
              Inl e \<Rightarrow> (Some e, (self, w1))
            | Inr w2 \<Rightarrow>
                (case update_manifest E (self, w2) of
                   (Some e, s3) \<Rightarrow> (Some e, s3)
                 | (None, (self3, w3)) \<Rightarrow>
                     (None,
                      (self3,
                       say (StdoutWrite SUCCESS
                              (''Static site output completed in '' @ elapsed_time E @ ''s'') [CHR 0x0A])
                         (say (StdoutWrite Plain [] [CHR 0x0A]) w3))))))"

text \<open>\<^verbatim>\<open>handle\<close>: the exception the command ends with, if any, and the state it leaves.\<close>

definition handle :: "env \<Rightarrow> options \<Rightarrow> state \<Rightarrow> exn option \<times> state" where
  "handle E opts s =
     (case handle_start E opts s of
        (Inl e, s1) \<Rightarrow> (Some e, s1)
      | (Inr collectstatic_future, s1) \<Rightarrow>
          (case handle_force opts collectstatic_future s1 of
             (Some e, s2) \<Rightarrow> (Some e, s2)
           | (None, s2) \<Rightarrow>
               (case handle_pool E (resolve_threads E opts (fst s2), snd s2) of
                  (Inl e, s3) \<Rightarrow> (Some e, s3)
                | (Inr vars, s3) \<Rightarrow> handle_report E vars s3)))"

section \<open>Outcomes and observations\<close>

text \<open>
  The three outcomes of a file, and what counting one does to the counters. The
  command has no such type: it increments one of the three counters.
\<close>

datatype outcome = Skip | Create | Update

fun count_outcome :: "outcome \<Rightarrow> counts \<Rightarrow> counts" where
  "count_outcome Create c = c\<lparr>create_count := create_count c + 1\<rparr>"
| "count_outcome Update c = c\<lparr>update_count := update_count c + 1\<rparr>"
| "count_outcome Skip c = c\<lparr>skip_count := skip_count c + 1\<rparr>"

text \<open>The lines the spinner printed with \<^verbatim>\<open>fail\<close>, in order.\<close>

definition failures :: "world \<Rightarrow> string list" where
  "failures w = concat (map (\<lambda>ev. case ev of SpinnerFail t \<Rightarrow> [t] | _ \<Rightarrow> []) (console w))"

text \<open>
  The manifest is current for a file: it has a record of the file with the
  modification time the file has now (nothing is asked of a file that cannot be read).
\<close>

definition recorded :: "env \<Rightarrow> Manifest \<Rightarrow> path \<Rightarrow> bool" where
  "recorded E m p =
     (case fingerprint E p of
        Inl e \<Rightarrow> True
      | Inr item \<Rightarrow>
          (case items m p of
             None \<Rightarrow> False
           | Some existing \<Rightarrow> mtime existing = mtime item))"

section \<open>The executor, step by step\<close>

text \<open>
  A finer model of lines 214 to 225, to compare with \<open>process_paths\<close>. The executor
  has a queue of work items and a fixed number of workers, each idle (\<open>None\<close>) or
  running a work item. \<^verbatim>\<open>executor.submit\<close> makes a future, numbered, and queues the
  work item; an idle worker takes the first item of the queue; a worker that ends
  its call of \<^verbatim>\<open>_output_markdown_file\<close> stores the exception (or \<open>None\<close>) in the future;
  the main thread, blocked in \<^verbatim>\<open>future.exception()\<close>, goes on when its future is
  done. The steps of different threads interleave in any order.
\<close>

record pool =
  pending :: "path list"
  waiting :: "(nat \<times> path) option"
  work_queue :: "(nat \<times> path) list"
  workers :: "(nat \<times> path) option list"
  futures :: "nat \<rightharpoonup> exn option"
  next_future :: nat
  loop_vars :: loop_vars
  shared :: state

inductive pool_step :: "env \<Rightarrow> pool \<Rightarrow> pool \<Rightarrow> bool" for E :: env where
  submit:
    "waiting c = None \<Longrightarrow> pending c = p # rest \<Longrightarrow>
     pool_step E c
       (c\<lparr>pending := rest, waiting := Some (next_future c, p),
          work_queue := work_queue c @ [(next_future c, p)],
          next_future := Suc (next_future c)\<rparr>)"
| take:
    "i < length (workers c) \<Longrightarrow> workers c ! i = None \<Longrightarrow> work_queue c = t # q \<Longrightarrow>
     pool_step E c (c\<lparr>workers := (workers c)[i := Some t], work_queue := q\<rparr>)"
| finish:
    "i < length (workers c) \<Longrightarrow> workers c ! i = Some (k, p) \<Longrightarrow>
     output_markdown_file E p (shared c) = (r, s') \<Longrightarrow>
     pool_step E c
       (c\<lparr>workers := (workers c)[i := None], futures := (futures c)(k \<mapsto> r), shared := s'\<rparr>)"
| resume:
    "waiting c = Some (k, p) \<Longrightarrow> futures c k = Some r \<Longrightarrow>
     pool_step E c
       (c\<lparr>waiting := None,
          loop_vars :=
            (case r of
               None \<Rightarrow> loop_vars c
             | Some error \<Rightarrow>
                 (fst (loop_vars c) @ [error_message_of p error], Some (error_message_of p error)))\<rparr>)"

text \<open>The executor with \<open>n\<close> workers when the loop starts, and the loop's end.\<close>

definition pool_init :: "nat \<Rightarrow> path list \<Rightarrow> state \<Rightarrow> pool" where
  "pool_init n paths s =
     \<lparr>pending = paths, waiting = None, work_queue = [], workers = replicate n None,
      futures = Map.empty, next_future = 0, loop_vars = ([], None), shared = s\<rparr>"

definition pool_done :: "pool \<Rightarrow> bool" where
  "pool_done c = (pending c = [] \<and> waiting c = None)"

text \<open>The number of files submitted and not finished: queued, or being built by a worker.\<close>

definition busy :: "'a option list \<Rightarrow> nat" where
  "busy ws = length (filter (\<lambda>x. x \<noteq> None) ws)"

definition in_flight :: "pool \<Rightarrow> nat" where
  "in_flight c = length (work_queue c) + busy (workers c)"

text \<open>
  The loop a configuration stands for: what the loop of \<open>process_paths\<close> gives when
  it goes on from the configuration, with the file the main thread waits for first
  unless its future is done.
\<close>

definition pool_finish :: "env \<Rightarrow> pool \<Rightarrow> loop_vars \<times> state" where
  "pool_finish E c =
     (case waiting c of
        None \<Rightarrow> process_paths E (pending c) (loop_vars c) (shared c)
      | Some (k, p) \<Rightarrow>
          (case futures c k of
             None \<Rightarrow> process_paths E (p # pending c) (loop_vars c) (shared c)
           | Some r \<Rightarrow>
               process_paths E (pending c)
                 (case r of
                    None \<Rightarrow> loop_vars c
                  | Some error \<Rightarrow>
                      (fst (loop_vars c) @ [error_message_of p error], Some (error_message_of p error)))
                 (shared c)))"

text \<open>
  What holds of every configuration the executor reaches: a work item queued or
  running is the one the main thread waits for, and its future is not done; there
  is one such item while the main thread waits for a future that is not done and
  none otherwise; the futures not yet made are not done.
\<close>

definition pool_inv :: "pool \<Rightarrow> bool" where
  "pool_inv c =
     ((\<forall>t. t \<in> set (work_queue c) \<or> Some t \<in> set (workers c)
            \<longrightarrow> waiting c = Some t \<and> futures c (fst t) = None)
      \<and> in_flight c = (if \<exists>t. waiting c = Some t \<and> futures c (fst t) = None then 1 else 0)
      \<and> (\<forall>k. next_future c \<le> k \<longrightarrow> futures c k = None)
      \<and> (\<forall>t. waiting c = Some t \<longrightarrow> fst t < next_future c))"

section \<open>What a build does to the manifest and the counters\<close>

text \<open>
  The part of \<^verbatim>\<open>_output_markdown_file\<close> that touches the manifest and the counters, as a
  function of the two and of the force flag: the file is counted as the five steps
  say, and its fingerprint is added when the hash matched, or when the file was
  rendered and written without exception. It serves to compare orders of the files.
\<close>

definition renders :: "env \<Rightarrow> path \<Rightarrow> bool" where
  "renders E p = (\<not> isl (render_html E p) \<and> write_text_error E (generated_file_path E p) = None)"

definition core_step :: "env \<Rightarrow> bool \<Rightarrow> path \<Rightarrow> Manifest \<times> counts \<Rightarrow> Manifest \<times> counts" where
  "core_step E forced p mc =
     (case mc of (m, c) \<Rightarrow>
        (case fingerprint E p of
           Inl e \<Rightarrow> (m, c)
         | Inr item \<Rightarrow>
             (let added = m\<lparr>items := (items m)(p \<mapsto> item), is_dirty := True\<rparr>;
                  built = (if renders E p then added else m)
              in case items m p of
                   None \<Rightarrow> (built, count_outcome Create c)
                 | Some existing \<Rightarrow>
                     if forced then (built, count_outcome Update c)
                     else if mtime item = mtime existing then (m, count_outcome Skip c)
                     else if md5 item = md5 existing then (added, count_outcome Skip c)
                     else (built, count_outcome Update c))))"

text \<open>
  Two states agree when they differ at most in the number of threads and in what
  was printed.
\<close>

definition agree :: "state \<Rightarrow> state \<Rightarrow> bool" where
  "agree s t =
     (is_force (fst s) = is_force (fst t) \<and> manifest (fst s) = manifest (fst t)
      \<and> output_result_counts (fst s) = output_result_counts (fst t)
      \<and> settings (snd s) = settings (snd t) \<and> outputs (snd s) = outputs (snd t)
      \<and> manifest_file (snd s) = manifest_file (snd t) \<and> calls (snd s) = calls (snd t))"

section \<open>The number of threads in the specification's words\<close>

text \<open>
  The specification's thread count, to compare with \<open>resolve_threads\<close>: the
  \<^verbatim>\<open>--threads\<close> value when it is a valid positive integer (one that \<^verbatim>\<open>int\<close> reads);
  otherwise half of the hardware threads, minus one, floored at 1.
\<close>

definition spec_threads_count :: "env \<Rightarrow> int \<Rightarrow> string option \<Rightarrow> int" where
  "spec_threads_count E cpus t =
     (let computed_default = max 1 (cpus div 2 - 1)
      in case t of
           None \<Rightarrow> computed_default
         | Some s \<Rightarrow>
             (case py_int E s of
                None \<Rightarrow> computed_default
              | Some n \<Rightarrow> if 0 < n then n else computed_default))"

section \<open>Example builds\<close>

text \<open>
  A site with the given content files, of which those in \<open>broken\<close> fail to render.
  Every file has modification time \<open>t\<close> and its own name as hash; the machine has
  \<open>cpus\<close> hardware threads. The examples give \<^verbatim>\<open>int\<close> short ASCII strings only, so
  what \<open>python_int\<close> answers is never asked.
\<close>

definition example_env :: "path list \<Rightarrow> path list \<Rightarrow> int \<Rightarrow> int \<Rightarrow> env" where
  "example_env files broken t cpus =
     \<lparr>fingerprint = (\<lambda>p. Inr \<lparr>mtime = t, md5 = p\<rparr>),
      render_html = (\<lambda>p. if p \<in> set broken then Inl (Exn ''ValueError'' ''bad'') else Inr (''<p>'' @ p)),
      generated_file_path = (\<lambda>p. p @ ''.html''),
      write_text_error = (\<lambda>p. None),
      get_content_paths = files,
      collectstatic =
        Inr ([CHR 0x0A] @ ''1 static file copied to '' @ [CHR 0x27] @ ''output/static'' @ [CHR 0x27]
             @ ''.'' @ [CHR 0x0A]),
      static_set_changed = False,
      cpu_count = Inr cpus,
      python_int = (\<lambda>s. None),
      get_output_directory = (\<lambda>st. ''output''),
      get_output_static_directory = (\<lambda>st. ''output/static''),
      mkdir_error = (\<lambda>p. None),
      load_error = None,
      write_data_error = None,
      elapsed_time = ''0.0100''\<rparr>"

definition example_settings :: settings where
  "example_settings = \<lparr>COLTRANE = None, STATIC_ROOT = None, DEBUG = True\<rparr>"

text \<open>A world with the given manifest file, and nothing generated or printed yet.\<close>

definition example_world :: "(path \<rightharpoonup> ManifestItem) option \<Rightarrow> world" where
  "example_world mf =
     \<lparr>settings = example_settings, outputs = Map.empty, manifest_file = mf, calls = [], console = []\<rparr>"

definition no_options :: options where
  "no_options = \<lparr>force = False, threads = None, output_dir = None\<rparr>"

text \<open>A command whose manifest holds one record, for the file \<open>a\<close>.\<close>

definition example_manifest :: "int \<Rightarrow> string \<Rightarrow> Manifest" where
  "example_manifest t h =
     \<lparr>items = [''a'' \<mapsto> \<lparr>mtime = t, md5 = h\<rparr>], is_dirty = False, static_files_manifest_changed = False\<rparr>"

definition example_command :: "int \<Rightarrow> string \<Rightarrow> Command" where
  "example_command t h = Command_new\<lparr>manifest := Some (example_manifest t h)\<rparr>"

section \<open>Building one file: properties\<close>

lemmas output_markdown_file_defs =
  output_markdown_file_def check_skipped_def render_and_add_def manifest_add_def
  write_text_def record_call_def incr_skip_def incr_update_def incr_create_def Manifest_add_def
  Manifest_get_def ManifestItem_create_def

lemmas example_defs =
  example_env_def example_world_def example_settings_def example_manifest_def
  example_command_def Command_new_def no_options_def

text \<open>
  C1. A file whose fingerprint could be taken is classified by the five steps. With
  the force flag set, the file is counted as updated when the manifest has a record of
  it and as created otherwise, and \<^verbatim>\<open>render_html\<close> is called. Without the flag: with no
  record, it is counted as created and rendered; with a record of the same
  modification time, it is counted as skipped, no collaborator is called and the
  manifest is the same; with another modification time and the same hash, it is
  counted as skipped, the only call is \<^verbatim>\<open>add\<close>, which stores the fingerprint and sets the
  dirty flag; else it is counted as updated and rendered.
\<close>

theorem classification_five_steps:
  assumes "manifest self = Some m"
    and "ManifestItem_create E p = Inr item"
    and "output_markdown_file E p (self, w) = (r, (self', w'))"
  shows
    "if is_force self then
       output_result_counts self' =
         count_outcome (if Manifest_get m p \<noteq> None then Update else Create) (output_result_counts self)
       \<and> (\<exists>rest. calls w' = calls w @ CallRender p # rest)
     else
       (case Manifest_get m p of
          None \<Rightarrow>
            output_result_counts self' = count_outcome Create (output_result_counts self)
            \<and> (\<exists>rest. calls w' = calls w @ CallRender p # rest)
        | Some existing \<Rightarrow>
            if mtime item = mtime existing then
              output_result_counts self' = count_outcome Skip (output_result_counts self)
              \<and> calls w' = calls w \<and> outputs w' = outputs w \<and> manifest self' = manifest self
              \<and> r = None
            else if md5 item = md5 existing then
              output_result_counts self' = count_outcome Skip (output_result_counts self)
              \<and> calls w' = calls w @ [CallAdd p] \<and> outputs w' = outputs w
              \<and> manifest self' = Some (m\<lparr>items := (items m)(p \<mapsto> item), is_dirty := True\<rparr>)
              \<and> r = None
            else
              output_result_counts self' = count_outcome Update (output_result_counts self)
              \<and> (\<exists>rest. calls w' = calls w @ CallRender p # rest))"
  using assms
  by (auto simp: output_markdown_file_defs Let_def split: option.splits sum.splits if_splits prod.splits)

theorem classification_five_steps_witness:
  "manifest (example_command 1 ''a'') = Some (example_manifest 1 ''a'')
   \<and> ManifestItem_create (example_env [''a''] [] 2 8) ''a'' = Inr \<lparr>mtime = 2, md5 = ''a''\<rparr>
   \<and> output_result_counts
        (fst (snd (output_markdown_file (example_env [''a''] [] 2 8) ''a''
                     (example_command 1 ''a'', example_world None))))
      = \<lparr>create_count = 0, update_count = 0, skip_count = 1\<rparr>
   \<and> calls (snd (snd (output_markdown_file (example_env [''a''] [] 2 8) ''a''
                        (example_command 1 ''a'', example_world None))))
      = [CallAdd ''a'']"
proof -
  let ?R = "output_markdown_file (example_env [''a''] [] 2 8) ''a''
              (example_command 1 ''a'', example_world None)"
  have m: "manifest (example_command 1 ''a'') = Some (example_manifest 1 ''a'')"
    by (simp add: example_defs)
  have f: "ManifestItem_create (example_env [''a''] [] 2 8) ''a'' = Inr \<lparr>mtime = 2, md5 = ''a''\<rparr>"
    by (simp add: ManifestItem_create_def example_defs)
  have r: "?R = (fst ?R, (fst (snd ?R), snd (snd ?R)))"
    by simp
  from classification_five_steps [OF m f r] m f show ?thesis
    by (simp add: example_defs Manifest_get_def)
qed

text \<open>
  What one call leaves alone: the force flag, the number of threads, the settings,
  the manifest file and the console.
\<close>

lemma output_markdown_file_frame:
  assumes "output_markdown_file E p (self, w) = (r, (self', w'))"
  shows "is_force self' = is_force self \<and> threads_count self' = threads_count self
         \<and> settings w' = settings w \<and> manifest_file w' = manifest_file w \<and> console w' = console w"
  using assms
  by (auto simp: output_markdown_file_defs Let_def split: option.splits sum.splits if_splits prod.splits)

text \<open>The manifest after a call is the one before, or that one with the file's fingerprint added.\<close>

lemma output_markdown_file_manifest:
  assumes "manifest self = Some m"
    and "output_markdown_file E p (self, w) = (r, (self', w'))"
  shows "manifest self' = Some m
         \<or> (\<exists>item. fingerprint E p = Inr item
               \<and> manifest self' = Some (m\<lparr>items := (items m)(p \<mapsto> item), is_dirty := True\<rparr>))"
  using assms
  by (auto simp: output_markdown_file_defs Let_def split: option.splits sum.splits if_splits prod.splits)

text \<open>
  C5. A file whose modification time differs from the record's and whose hash is the
  record's, without the force flag: the call ends without exception, the skipped
  counter is one more, the manifest holds the file's current fingerprint (so its new
  modification time) and is dirty, the only call made is \<^verbatim>\<open>add\<close>, and the rest of the
  command and of the world is as before: no rendering and no generated file written.
\<close>

theorem hash_fallback_refreshes_record:
  assumes "manifest self = Some m"
    and "\<not> is_force self"
    and "ManifestItem_create E p = Inr item"
    and "Manifest_get m p = Some existing"
    and "mtime item \<noteq> mtime existing"
    and "md5 item = md5 existing"
  shows "output_markdown_file E p (self, w) =
           (None,
            (self\<lparr>manifest := Some (m\<lparr>items := (items m)(p \<mapsto> item), is_dirty := True\<rparr>),
                  output_result_counts := count_outcome Skip (output_result_counts self)\<rparr>,
             w\<lparr>calls := calls w @ [CallAdd p]\<rparr>))"
  using assms
  by (simp add: output_markdown_file_defs)

theorem hash_fallback_refreshes_record_witness:
  "manifest (example_command 1 ''a'') = Some (example_manifest 1 ''a'')
   \<and> \<not> is_force (example_command 1 ''a'')
   \<and> ManifestItem_create (example_env [''a''] [] 2 8) ''a'' = Inr \<lparr>mtime = 2, md5 = ''a''\<rparr>
   \<and> Manifest_get (example_manifest 1 ''a'') ''a'' = Some \<lparr>mtime = 1, md5 = ''a''\<rparr>
   \<and> output_markdown_file (example_env [''a''] [] 2 8) ''a'' (example_command 1 ''a'', example_world None) =
        (None,
         ((example_command 1 ''a'')
            \<lparr>manifest :=
               Some ((example_manifest 1 ''a'')
                       \<lparr>items := (items (example_manifest 1 ''a''))(''a'' \<mapsto> \<lparr>mtime = 2, md5 = ''a''\<rparr>),
                        is_dirty := True\<rparr>),
             output_result_counts := count_outcome Skip (output_result_counts (example_command 1 ''a''))\<rparr>,
          (example_world None)\<lparr>calls := calls (example_world None) @ [CallAdd ''a'']\<rparr>))"
proof -
  have m: "manifest (example_command 1 ''a'') = Some (example_manifest 1 ''a'')"
    by (simp add: example_defs)
  have nf: "\<not> is_force (example_command 1 ''a'')"
    by (simp add: example_defs)
  have f: "ManifestItem_create (example_env [''a''] [] 2 8) ''a'' = Inr \<lparr>mtime = 2, md5 = ''a''\<rparr>"
    by (simp add: ManifestItem_create_def example_defs)
  have g: "Manifest_get (example_manifest 1 ''a'') ''a'' = Some \<lparr>mtime = 1, md5 = ''a''\<rparr>"
    by (simp add: Manifest_get_def example_defs)
  from hash_fallback_refreshes_record [OF m nf f g, of "example_world None"] m nf f g
  show ?thesis by simp
qed

section \<open>The phases of the command: properties\<close>

lemma counts_reset:
  "(c::counts)\<lparr>create_count := 0, update_count := 0, skip_count := 0\<rparr>
     = \<lparr>create_count = 0, update_count = 0, skip_count = 0\<rparr>"
  by (cases c) simp

lemma say_frame:
  "calls (say ev w) = calls w" "outputs (say ev w) = outputs w"
  "manifest_file (say ev w) = manifest_file w" "settings (say ev w) = settings w"
  by (simp_all add: say_def)

lemma success_frame:
  "calls (success t e w) = calls w" "outputs (success t e w) = outputs w"
  "manifest_file (success t e w) = manifest_file w" "settings (success t e w) = settings w"
  by (simp_all add: success_def say_frame)

text \<open>
  After the first phase the force flag is off and the counters are zero; the manifest
  is the one loaded from the manifest file, or none when the phase failed.
\<close>

lemma handle_start_result:
  assumes "handle_start E opts (self, w) = (r, (self1, w1))"
  shows "is_force self1 = False
         \<and> output_result_counts self1 = \<lparr>create_count = 0, update_count = 0, skip_count = 0\<rparr>
         \<and> calls w1 = calls w \<and> outputs w1 = outputs w \<and> manifest_file w1 = manifest_file w
         \<and> threads_count self1 = threads_count self
         \<and> (case r of
               Inl e \<Rightarrow> manifest self1 = None
             | Inr fut \<Rightarrow>
                 manifest self1 =
                   Some \<lparr>items = (case manifest_file w of None \<Rightarrow> Map.empty | Some m \<Rightarrow> m),
                         is_dirty = False, static_files_manifest_changed = static_set_changed E\<rparr>)"
  using assms
  by (auto simp: handle_start_def Let_def say_def success_def call_collectstatic_def
                 Manifest_load_def counts_reset
           split: prod.splits option.splits sum.splits)

lemma handle_force_result:
  assumes "handle_force opts fut (self, w) = (None, (self2, w2))"
    and "manifest self = Some m"
    and "\<not> is_force self"
  shows "is_force self2 = (force opts \<or> static_files_manifest_changed m)
         \<and> manifest self2 = Some m
         \<and> output_result_counts self2 = output_result_counts self
         \<and> threads_count self2 = threads_count self
         \<and> calls w2 = calls w \<and> manifest_file w2 = manifest_file w \<and> outputs w2 = outputs w"
  using assms
  by (auto simp: handle_force_def Let_def say_def success_def split: sum.splits if_splits prod.splits)

lemma resolve_threads_frame:
  "is_force (resolve_threads E opts self) = is_force self
   \<and> manifest (resolve_threads E opts self) = manifest self
   \<and> output_result_counts (resolve_threads E opts self) = output_result_counts self"
  by (auto simp: resolve_threads_def split: option.splits list.splits sum.splits)

lemma handle_pool_result:
  assumes "handle_pool E (self, w) = (Inr vars, s')"
  shows "0 < threads_count self
         \<and> (\<exists>w2. process_paths E (get_content_paths E) ([], None) (self, w2) = (vars, s')
                \<and> calls w2 = calls w \<and> manifest_file w2 = manifest_file w \<and> outputs w2 = outputs w)"
  using assms
  by (auto simp: handle_pool_def Let_def say_def split: if_splits prod.splits)

lemma report_errors_frame:
  assumes "report_errors vars w = Inr w2"
  shows "calls w2 = calls w \<and> outputs w2 = outputs w \<and> manifest_file w2 = manifest_file w"
  using assms
  by (auto simp: report_errors_def split: list.splits option.splits)

lemma Manifest_write_data_result:
  assumes "Manifest_write_data E m w = (r, w')"
  shows "calls w' = calls w @ [CallWriteData] \<and> outputs w' = outputs w
         \<and> (r = None \<longrightarrow> manifest_file w' = Some (items m))"
  using assms
  by (auto simp: Manifest_write_data_def Let_def split: option.splits)

lemma update_manifest_result:
  assumes "update_manifest E (self, w) = (None, (self', w'))"
  shows "self' = self \<and> outputs w' = outputs w
         \<and> (\<exists>m. manifest self = Some m
                  \<and> calls w' = calls w @ (if is_dirty m then [CallWriteData] else [])
                  \<and> manifest_file w' = (if is_dirty m then Some (items m) else manifest_file w))"
  using assms
  by (auto simp: update_manifest_def say_frame dest!: Manifest_write_data_result
           split: option.splits if_splits prod.splits)

text \<open>The last phase writes the manifest file when the manifest is dirty, and only then.\<close>

lemma handle_report_result:
  assumes "handle_report E vars (self, w) = (None, (self', w'))"
  shows "self' = self \<and> outputs w' = outputs w
         \<and> (\<exists>m. manifest self = Some m
                  \<and> calls w' = calls w @ (if is_dirty m then [CallWriteData] else [])
                  \<and> manifest_file w' = (if is_dirty m then Some (items m) else manifest_file w))"
proof -
  from assms obtain w2 w3 where
    w2: "report_errors vars (say (SpinnerSucceed (Some (result_msg (output_result_counts self)))) w) = Inr w2"
    and w3: "update_manifest E (self, w2) = (None, (self', w3))"
    and w': "w' = say (StdoutWrite SUCCESS (''Static site output completed in '' @ elapsed_time E @ ''s'') [CHR 0x0A])
                         (say (StdoutWrite Plain [] [CHR 0x0A]) w3)"
    by (auto simp: handle_report_def Let_def split: sum.splits option.splits prod.splits)
  from report_errors_frame [OF w2] update_manifest_result [OF w3] w' show ?thesis
    by (auto simp: say_frame)
qed

text \<open>A command that ends without exception went through the four phases.\<close>

lemma handle_completed:
  assumes "handle E opts (self, w) = (None, (self', w'))"
  shows "\<exists>fut self1 w1 self2 w2 vars self3 w3.
           handle_start E opts (self, w) = (Inr fut, (self1, w1))
           \<and> handle_force opts fut (self1, w1) = (None, (self2, w2))
           \<and> handle_pool E (resolve_threads E opts self2, w2) = (Inr vars, (self3, w3))
           \<and> handle_report E vars (self3, w3) = (None, (self', w'))"
  using assms
  by (auto simp: handle_def split: prod.splits sum.splits option.splits)

section \<open>Forced builds\<close>

lemma output_markdown_file_forced:
  assumes "manifest self = Some m"
    and "is_force self"
    and "output_markdown_file E p (self, w) = (r, (self', w'))"
  shows "skip_count (output_result_counts self') = skip_count (output_result_counts self)
         \<and> create_count (output_result_counts self') + update_count (output_result_counts self')
             = create_count (output_result_counts self) + update_count (output_result_counts self)
               + (if isl (fingerprint E p) then 0 else 1)"
  using assms
  by (auto simp: output_markdown_file_defs Let_def split: option.splits sum.splits if_splits prod.splits)

lemma process_paths_forced:
  assumes "manifest self = Some m"
    and "is_force self"
    and "process_paths E ps vars (self, w) = (vars', (self', w'))"
  shows "skip_count (output_result_counts self') = skip_count (output_result_counts self)
         \<and> create_count (output_result_counts self') + update_count (output_result_counts self')
             = create_count (output_result_counts self) + update_count (output_result_counts self)
               + int (length (filter (\<lambda>p. \<not> isl (fingerprint E p)) ps))"
  using assms
proof (induction ps arbitrary: vars self w m)
  case Nil
  then show ?case by simp
next
  case (Cons p ps)
  obtain r self1 w1 where step: "output_markdown_file E p (self, w) = (r, (self1, w1))"
    by (metis prod.exhaust)
  from output_markdown_file_manifest [OF Cons.prems(1) step]
  obtain m1 where m1: "manifest self1 = Some m1" by blast
  from output_markdown_file_frame [OF step] Cons.prems(2)
  have f1: "is_force self1" by simp
  from Cons.prems(3) step
  obtain vars1 where rest: "process_paths E ps vars1 (self1, w1) = (vars', (self', w'))"
    by (cases r) auto
  from Cons.IH [OF m1 f1 rest] output_markdown_file_forced [OF Cons.prems(1) Cons.prems(2) step]
  show ?case by auto
qed

text \<open>
  C2. A build that ends without exception, with \<^verbatim>\<open>--force\<close> or with changed static
  files: no file is counted as skipped, and every discovered file whose fingerprint
  could be taken is counted as created or updated, whatever the manifest file records.
\<close>

theorem forced_build_never_skips:
  assumes "handle E opts (self, w) = (None, (self', w'))"
    and "force opts \<or> static_set_changed E"
  shows "skip_count (output_result_counts self') = 0
         \<and> create_count (output_result_counts self') + update_count (output_result_counts self')
             = int (length (filter (\<lambda>p. \<not> isl (fingerprint E p)) (get_content_paths E)))"
proof -
  from handle_completed [OF assms(1)] obtain fut self1 w1 self2 w2 vars self3 w3 where
    start: "handle_start E opts (self, w) = (Inr fut, (self1, w1))"
    and forcing: "handle_force opts fut (self1, w1) = (None, (self2, w2))"
    and pool: "handle_pool E (resolve_threads E opts self2, w2) = (Inr vars, (self3, w3))"
    and report: "handle_report E vars (self3, w3) = (None, (self', w'))"
    by blast
  let ?m = "\<lparr>items = (case manifest_file w of None \<Rightarrow> Map.empty | Some m \<Rightarrow> m),
             is_dirty = False, static_files_manifest_changed = static_set_changed E\<rparr>"
  from handle_start_result [OF start]
  have s1: "\<not> is_force self1" "manifest self1 = Some ?m"
    "output_result_counts self1 = \<lparr>create_count = 0, update_count = 0, skip_count = 0\<rparr>"
    by simp_all
  from handle_force_result [OF forcing s1(2) s1(1)] assms(2) s1(3)
  have s2: "is_force self2" "manifest self2 = Some ?m"
    "output_result_counts self2 = \<lparr>create_count = 0, update_count = 0, skip_count = 0\<rparr>"
    by auto
  let ?self = "resolve_threads E opts self2"
  from s2 resolve_threads_frame [of E opts self2]
  have s3: "is_force ?self" "manifest ?self = Some ?m"
    "output_result_counts ?self = \<lparr>create_count = 0, update_count = 0, skip_count = 0\<rparr>"
    by simp_all
  from handle_pool_result [OF pool] obtain w2' where
    loop: "process_paths E (get_content_paths E) ([], None) (?self, w2') = (vars, (self3, w3))"
    by blast
  from process_paths_forced [OF s3(2) s3(1) loop] s3(3) handle_report_result [OF report]
  show ?thesis by simp
qed

theorem forced_build_never_skips_witness:
  "fst (handle ((example_env [''a''] [] 1 8)\<lparr>static_set_changed := True\<rparr>) no_options
          (Command_new, example_world (Some [''a'' \<mapsto> \<lparr>mtime = 1, md5 = ''a''\<rparr>]))) = None
   \<and> (force no_options \<or> static_set_changed ((example_env [''a''] [] 1 8)\<lparr>static_set_changed := True\<rparr>))
   \<and> skip_count (output_result_counts (fst (snd
        (handle ((example_env [''a''] [] 1 8)\<lparr>static_set_changed := True\<rparr>) no_options
          (Command_new, example_world (Some [''a'' \<mapsto> \<lparr>mtime = 1, md5 = ''a''\<rparr>])))))) = 0
   \<and> create_count (output_result_counts (fst (snd
        (handle ((example_env [''a''] [] 1 8)\<lparr>static_set_changed := True\<rparr>) no_options
          (Command_new, example_world (Some [''a'' \<mapsto> \<lparr>mtime = 1, md5 = ''a''\<rparr>]))))))
     + update_count (output_result_counts (fst (snd
        (handle ((example_env [''a''] [] 1 8)\<lparr>static_set_changed := True\<rparr>) no_options
          (Command_new, example_world (Some [''a'' \<mapsto> \<lparr>mtime = 1, md5 = ''a''\<rparr>])))))) = 1"
proof -
  let ?E = "(example_env [''a''] [] 1 8)\<lparr>static_set_changed := True\<rparr>"
  let ?R = "handle ?E no_options (Command_new, example_world (Some [''a'' \<mapsto> \<lparr>mtime = 1, md5 = ''a''\<rparr>]))"
  have fin: "fst ?R = None"
    by code_simp
  then have r: "?R = (None, (fst (snd ?R), snd (snd ?R)))"
    by (metis prod.collapse)
  have st: "force no_options \<or> static_set_changed ?E"
    by (simp add: example_env_def)
  have n: "int (length (filter (\<lambda>p. \<not> isl (fingerprint ?E p)) (get_content_paths ?E))) = 1"
    by (simp add: example_env_def)
  from forced_build_never_skips [OF r st] fin st n show ?thesis
    by simp
qed

section \<open>The start of a build\<close>

text \<open>
  C10. The command gives the same result and leaves the same state whatever the
  force flag, the manifest and the counters of the command object were before: the
  first phase sets the flag to false, the counters to zero and the manifest to none,
  and then loads the manifest from the manifest file. (The number of threads is not
  reset.)
\<close>

theorem build_starts_from_reset_command:
  "handle E opts (self\<lparr>is_force := f, manifest := m, output_result_counts := c\<rparr>, w) = handle E opts (self, w)
   \<and> \<not> is_force (fst (snd (handle_start E opts (self, w))))
   \<and> output_result_counts (fst (snd (handle_start E opts (self, w))))
       = \<lparr>create_count = 0, update_count = 0, skip_count = 0\<rparr>
   \<and> (manifest (fst (snd (handle_start E opts (self, w)))) = None
       \<or> manifest (fst (snd (handle_start E opts (self, w))))
           = Some \<lparr>items = (case manifest_file w of None \<Rightarrow> Map.empty | Some mf \<Rightarrow> mf),
                   is_dirty = False, static_files_manifest_changed = static_set_changed E\<rparr>)"
proof -
  have "handle E opts (self\<lparr>is_force := f, manifest := m, output_result_counts := c\<rparr>, w)
          = handle E opts (self, w)"
    by (simp add: handle_def handle_start_def counts_reset)
  moreover
  obtain r self1 w1 where start: "handle_start E opts (self, w) = (r, (self1, w1))"
    by (metis prod.exhaust)
  from handle_start_result [OF start] start
  have "\<not> is_force (fst (snd (handle_start E opts (self, w))))
   \<and> output_result_counts (fst (snd (handle_start E opts (self, w))))
       = \<lparr>create_count = 0, update_count = 0, skip_count = 0\<rparr>
   \<and> (manifest (fst (snd (handle_start E opts (self, w)))) = None
       \<or> manifest (fst (snd (handle_start E opts (self, w))))
           = Some \<lparr>items = (case manifest_file w of None \<Rightarrow> Map.empty | Some mf \<Rightarrow> mf),
                   is_dirty = False, static_files_manifest_changed = static_set_changed E\<rparr>)"
    by (cases r) simp_all
  ultimately show ?thesis by blast
qed

theorem build_starts_from_reset_command_witness:
  "handle (example_env [''a''] [] 1 8) no_options
     (Command_new\<lparr>is_force := True, manifest := Some (example_manifest 1 ''a''),
                  output_result_counts := \<lparr>create_count = 5, update_count = 6, skip_count = 7\<rparr>\<rparr>,
      example_world None)
   = handle (example_env [''a''] [] 1 8) no_options (Command_new, example_world None)
   \<and> output_result_counts (fst (snd (handle (example_env [''a''] [] 1 8) no_options
        (Command_new\<lparr>is_force := True, manifest := Some (example_manifest 1 ''a''),
                     output_result_counts := \<lparr>create_count = 5, update_count = 6, skip_count = 7\<rparr>\<rparr>,
         example_world None))))
     = \<lparr>create_count = 1, update_count = 0, skip_count = 0\<rparr>"
proof -
  have "output_result_counts (fst (snd (handle (example_env [''a''] [] 1 8) no_options
          (Command_new, example_world None))))
        = \<lparr>create_count = 1, update_count = 0, skip_count = 0\<rparr>"
    by code_simp
  with build_starts_from_reset_command
         [where E = "example_env [''a''] [] 1 8" and opts = no_options and self = Command_new
            and f = True and m = "Some (example_manifest 1 ''a'')"
            and c = "\<lparr>create_count = 5, update_count = 6, skip_count = 7\<rparr>"
            and w = "example_world None"]
  show ?thesis by simp
qed

section \<open>The number of threads\<close>

text \<open>
  C6, as the specification states it, fails: with \<^verbatim>\<open>--threads abc\<close> on a machine with 8
  hardware threads a new command keeps its 2 threads, where the specification's
  computed default is 3.
\<close>

theorem threads_fallback_counterexample:
  "threads_count (resolve_threads (example_env [] [] 1 8) (no_options\<lparr>threads := Some ''abc''\<rparr>) Command_new) = 2
   \<and> spec_threads_count (example_env [] [] 1 8) 8 (Some ''abc'') = 3
   \<and> threads_count (resolve_threads (example_env [] [] 1 8) (no_options\<lparr>threads := Some ''abc''\<rparr>) Command_new)
       \<noteq> spec_threads_count (example_env [] [] 1 8) 8 (Some ''abc'')"
  by (simp add: resolve_threads_def spec_threads_count_def py_int_def ascii_int_def strip_def is_space_def
                digit_value_def example_defs)

text \<open>
  C6, amended. A \<^verbatim>\<open>--threads\<close> value that is a positive integer is the number of
  threads. A value that \<^verbatim>\<open>int\<close> refuses leaves the command as it was, so with the
  number of threads it had (2 for a new command), and raises nothing. Without a
  value (or with the empty string), on a machine that reports at least 4 hardware
  threads, the number is half of them, rounded down, minus one, which is at least 1.
\<close>

theorem threads_count_resolved:
  "(threads opts = Some s \<longrightarrow> s \<noteq> [] \<longrightarrow> py_int E s = Some n \<longrightarrow> 0 < n \<longrightarrow>
      threads_count (resolve_threads E opts self) = n)
   \<and> (threads opts = Some s \<longrightarrow> s \<noteq> [] \<longrightarrow> py_int E s = None \<longrightarrow>
      resolve_threads E opts self = self)
   \<and> (threads opts = None \<or> threads opts = Some [] \<longrightarrow> cpu_count E = Inr k \<longrightarrow> 4 \<le> k \<longrightarrow>
      threads_count (resolve_threads E opts self) = k div 2 - 1
      \<and> 1 \<le> threads_count (resolve_threads E opts self))
   \<and> threads_count Command_new = 2"
  by (auto simp: resolve_threads_def Command_new_def split: option.splits list.splits sum.splits)

theorem threads_count_resolved_witness:
  "py_int (example_env [] [] 1 16) ''8'' = Some 8
   \<and> threads_count (resolve_threads (example_env [] [] 1 16) (no_options\<lparr>threads := Some ''8''\<rparr>) Command_new) = 8
   \<and> py_int (example_env [] [] 1 16) ''abc'' = None
   \<and> resolve_threads (example_env [] [] 1 16) (no_options\<lparr>threads := Some ''abc''\<rparr>) Command_new = Command_new
   \<and> cpu_count (example_env [] [] 1 16) = Inr 16
   \<and> threads_count (resolve_threads (example_env [] [] 1 16) no_options Command_new) = 7"
proof -
  have a: "py_int (example_env [] [] 1 16) ''8'' = Some 8"
    by (simp add: py_int_def ascii_int_def strip_def is_space_def digit_value_def)
  have b: "py_int (example_env [] [] 1 16) ''abc'' = None"
    by (simp add: py_int_def ascii_int_def strip_def is_space_def digit_value_def)
  have c: "cpu_count (example_env [] [] 1 16) = Inr 16"
    by (simp add: example_env_def)
  from threads_count_resolved
         [where opts = "no_options\<lparr>threads := Some ''8''\<rparr>" and s = "''8''" and n = 8
            and E = "example_env [] [] 1 16" and self = Command_new and k = 16]
       a
  have 1: "threads_count (resolve_threads (example_env [] [] 1 16) (no_options\<lparr>threads := Some ''8''\<rparr>) Command_new) = 8"
    by simp
  from threads_count_resolved
         [where opts = "no_options\<lparr>threads := Some ''abc''\<rparr>" and s = "''abc''" and n = 8
            and E = "example_env [] [] 1 16" and self = Command_new and k = 16]
       b
  have 2: "resolve_threads (example_env [] [] 1 16) (no_options\<lparr>threads := Some ''abc''\<rparr>) Command_new = Command_new"
    by simp
  from threads_count_resolved
         [where opts = no_options and s = "''8''" and n = 8
            and E = "example_env [] [] 1 16" and self = Command_new and k = 16]
       c
  have 3: "threads_count (resolve_threads (example_env [] [] 1 16) no_options Command_new) = 7"
    by (simp add: no_options_def)
  from a b c 1 2 3 show ?thesis by simp
qed

section \<open>Files that fail to render\<close>

text \<open>
  C3, at a failing input. Two files are discovered, no manifest file exists, and \<open>b\<close>
  fails to render. The build ends without exception and one error is collected, for
  \<open>b\<close>; but the counters show 2 created files, not 1: \<open>b\<close> was counted before
  \<^verbatim>\<open>render_html\<close> raised.
\<close>

theorem failed_render_is_counted:
  "fst (handle (example_env [''a'', ''b''] [''b''] 1 8) no_options (Command_new, example_world None)) = None
   \<and> output_result_counts
        (fst (snd (handle (example_env [''a'', ''b''] [''b''] 1 8) no_options (Command_new, example_world None))))
      = \<lparr>create_count = 2, update_count = 0, skip_count = 0\<rparr>
   \<and> fst (handle_pool (example_env [''a'', ''b''] [''b''] 1 8)
                  (Command_new\<lparr>manifest := Some \<lparr>items = Map.empty, is_dirty = False,
                                                   static_files_manifest_changed = False\<rparr>\<rparr>,
                   example_world None))
      = Inr ([error_message_of ''b'' (Exn ''ValueError'' ''bad'')],
             Some (error_message_of ''b'' (Exn ''ValueError'' ''bad'')))
   \<and> outputs (snd (snd (handle (example_env [''a'', ''b''] [''b''] 1 8) no_options
                          (Command_new, example_world None)))) ''b.html'' = None"
  by code_simp

text \<open>
  C7, at a failing input. Two files are discovered and both fail to render. After the
  summary the spinner prints two failures, and both are the message of \<open>b\<close>, the last
  file that failed: the message of \<open>a\<close> is never printed.
\<close>

theorem last_error_printed_for_each:
  "failures (snd (snd (handle (example_env [''a'', ''b''] [''a'', ''b''] 1 8) no_options
                        (Command_new, example_world None))))
     = [error_message_of ''b'' (Exn ''ValueError'' ''bad''), error_message_of ''b'' (Exn ''ValueError'' ''bad'')]
   \<and> error_message_of ''a'' (Exn ''ValueError'' ''bad'')
       \<notin> set (failures (snd (snd (handle (example_env [''a'', ''b''] [''a'', ''b''] 1 8) no_options
                                     (Command_new, example_world None)))))
   \<and> fst (handle_pool (example_env [''a'', ''b''] [''a'', ''b''] 1 8)
                  (Command_new\<lparr>manifest := Some \<lparr>items = Map.empty, is_dirty = False,
                                                   static_files_manifest_changed = False\<rparr>\<rparr>,
                   example_world None))
      = Inr ([error_message_of ''a'' (Exn ''ValueError'' ''bad''), error_message_of ''b'' (Exn ''ValueError'' ''bad'')],
             Some (error_message_of ''b'' (Exn ''ValueError'' ''bad'')))"
  by code_simp

section \<open>Building twice\<close>

text \<open>Without the force flag, a file the manifest is current for is skipped or cannot be read.\<close>

lemma output_markdown_file_recorded:
  assumes "manifest self = Some m"
    and "\<not> is_force self"
    and "recorded E m p"
    and "output_markdown_file E p (self, w) = (r, (self', w'))"
  shows "manifest self' = Some m \<and> w' = w
         \<and> create_count (output_result_counts self') = create_count (output_result_counts self)
         \<and> update_count (output_result_counts self') = update_count (output_result_counts self)"
  using assms
  by (auto simp: output_markdown_file_defs recorded_def Let_def
           split: option.splits sum.splits if_splits prod.splits)

lemma process_paths_recorded:
  assumes "manifest self = Some m"
    and "\<not> is_force self"
    and "\<forall>p\<in>set ps. recorded E m p"
    and "process_paths E ps vars (self, w) = (vars', (self', w'))"
  shows "manifest self' = Some m \<and> w' = w
         \<and> create_count (output_result_counts self') = create_count (output_result_counts self)
         \<and> update_count (output_result_counts self') = update_count (output_result_counts self)"
  using assms
proof (induction ps arbitrary: vars self w)
  case Nil
  then show ?case by simp
next
  case (Cons p ps)
  obtain r self1 w1 where step: "output_markdown_file E p (self, w) = (r, (self1, w1))"
    by (metis prod.exhaust)
  from Cons.prems(3) have rec: "recorded E m p" and recs: "\<forall>q\<in>set ps. recorded E m q"
    by simp_all
  note s1 = output_markdown_file_recorded [OF Cons.prems(1) Cons.prems(2) rec step]
  from output_markdown_file_frame [OF step] Cons.prems(2)
  have f1: "\<not> is_force self1" by simp
  from Cons.prems(4) step
  obtain vars1 where rest: "process_paths E ps vars1 (self1, w1) = (vars', (self', w'))"
    by (cases r) auto
  from s1 have m1: "manifest self1 = Some m" by simp
  from Cons.IH [OF m1 f1 recs rest] s1 show ?case by simp
qed

text \<open>
  A file that renders and can be written is recorded by its call, and a call keeps
  the manifest current for every file it was current for.
\<close>

lemma output_markdown_file_records:
  assumes "manifest self = Some m"
    and "\<not> isl (render_html E p)"
    and "write_text_error E (generated_file_path E p) = None"
    and "output_markdown_file E p (self, w) = (r, (self', w'))"
  shows "\<exists>m'. manifest self' = Some m' \<and> recorded E m' p"
  using assms
  by (auto simp: output_markdown_file_defs recorded_def Let_def
           split: option.splits sum.splits if_splits prod.splits)

lemma output_markdown_file_keeps_recorded:
  assumes "manifest self = Some m"
    and "recorded E m q"
    and "output_markdown_file E p (self, w) = (r, (self', w'))"
    and "manifest self' = Some m'"
  shows "recorded E m' q"
  using output_markdown_file_manifest [OF assms(1) assms(3)] assms(2) assms(4)
  by (auto simp: recorded_def split: sum.splits option.splits if_splits)

text \<open>A call leaves a clean manifest as it is, or makes it dirty; a dirty one stays dirty.\<close>

lemma output_markdown_file_dirty:
  assumes "manifest self = Some m"
    and "output_markdown_file E p (self, w) = (r, (self', w'))"
  shows "\<exists>m'. manifest self' = Some m' \<and> (is_dirty m \<longrightarrow> is_dirty m')
              \<and> (\<not> is_dirty m' \<longrightarrow> items m' = items m)"
  using output_markdown_file_manifest [OF assms] by auto

lemma process_paths_dirty:
  assumes "manifest self = Some m"
    and "process_paths E ps vars (self, w) = (vars', (self', w'))"
  shows "manifest_file w' = manifest_file w
         \<and> (\<exists>m'. manifest self' = Some m' \<and> (is_dirty m \<longrightarrow> is_dirty m')
                \<and> (\<not> is_dirty m' \<longrightarrow> items m' = items m))"
  using assms
proof (induction ps arbitrary: vars self w m)
  case Nil
  then show ?case by simp
next
  case (Cons p ps)
  obtain r self1 w1 where step: "output_markdown_file E p (self, w) = (r, (self1, w1))"
    by (metis prod.exhaust)
  from output_markdown_file_dirty [OF Cons.prems(1) step] obtain m1 where
    m1: "manifest self1 = Some m1" "is_dirty m \<longrightarrow> is_dirty m1"
        "\<not> is_dirty m1 \<longrightarrow> items m1 = items m"
    by blast
  from Cons.prems(2) step
  obtain vars1 where rest: "process_paths E ps vars1 (self1, w1) = (vars', (self', w'))"
    by (cases r) auto
  from Cons.IH [OF m1(1) rest] obtain m' where
    m': "manifest_file w' = manifest_file w1" "manifest self' = Some m'"
        "is_dirty m1 \<longrightarrow> is_dirty m'" "\<not> is_dirty m' \<longrightarrow> items m' = items m1"
    by blast
  from output_markdown_file_frame [OF step] have fr: "manifest_file w1 = manifest_file w"
    by simp
  have "is_dirty m \<longrightarrow> is_dirty m'"
    using m1(2) m'(3) by blast
  moreover have "\<not> is_dirty m' \<longrightarrow> items m' = items m"
    using m1(3) m'(3) m'(4) by metis
  ultimately show ?case
    using m'(1) m'(2) fr by simp
qed

lemma process_paths_records:
  assumes "manifest self = Some m"
    and "\<forall>p\<in>set ps. \<not> isl (render_html E p) \<and> write_text_error E (generated_file_path E p) = None"
    and "\<forall>q\<in>Q. recorded E m q"
    and "process_paths E ps vars (self, w) = (vars', (self', w'))"
  shows "\<exists>m'. manifest self' = Some m' \<and> (\<forall>q\<in>Q \<union> set ps. recorded E m' q)"
  using assms
proof (induction ps arbitrary: vars self w m Q)
  case Nil
  then show ?case by simp
next
  case (Cons p ps)
  obtain r self1 w1 where step: "output_markdown_file E p (self, w) = (r, (self1, w1))"
    by (metis prod.exhaust)
  from Cons.prems(2) have ok: "\<not> isl (render_html E p)"
    "write_text_error E (generated_file_path E p) = None"
    and oks: "\<forall>q\<in>set ps. \<not> isl (render_html E q) \<and> write_text_error E (generated_file_path E q) = None"
    by simp_all
  from output_markdown_file_records [OF Cons.prems(1) ok step] obtain m1 where
    m1: "manifest self1 = Some m1" "recorded E m1 p"
    by blast
  from Cons.prems(3) output_markdown_file_keeps_recorded [OF Cons.prems(1) _ step m1(1)]
  have "\<forall>q\<in>Q. recorded E m1 q" by blast
  with m1(2) have Q1: "\<forall>q\<in>insert p Q. recorded E m1 q" by simp
  from Cons.prems(4) step
  obtain vars1 where rest: "process_paths E ps vars1 (self1, w1) = (vars', (self', w'))"
    by (cases r) auto
  from Cons.IH [OF m1(1) oks Q1 rest] show ?case by simp
qed

text \<open>
  After a build that ended without exception the manifest file holds the records of
  the command's manifest; when every discovered file renders and can be written, the
  manifest is current for every discovered file.
\<close>

lemma handle_persists:
  assumes "handle E opts (self, w) = (None, (self', w'))"
  shows "\<exists>m'. manifest self' = Some m'
              \<and> (case manifest_file w' of None \<Rightarrow> Map.empty | Some f \<Rightarrow> f) = items m'
              \<and> ((\<forall>p\<in>set (get_content_paths E).
                     \<not> isl (render_html E p) \<and> write_text_error E (generated_file_path E p) = None)
                  \<longrightarrow> (\<forall>p\<in>set (get_content_paths E). recorded E m' p))"
proof -
  from handle_completed [OF assms] obtain fut self1 w1 self2 w2 vars self3 w3 where
    start: "handle_start E opts (self, w) = (Inr fut, (self1, w1))"
    and forcing: "handle_force opts fut (self1, w1) = (None, (self2, w2))"
    and pool: "handle_pool E (resolve_threads E opts self2, w2) = (Inr vars, (self3, w3))"
    and report: "handle_report E vars (self3, w3) = (None, (self', w'))"
    by blast
  let ?m = "\<lparr>items = (case manifest_file w of None \<Rightarrow> Map.empty | Some m \<Rightarrow> m),
             is_dirty = False, static_files_manifest_changed = static_set_changed E\<rparr>"
  from handle_start_result [OF start]
  have s1: "\<not> is_force self1" "manifest self1 = Some ?m" "manifest_file w1 = manifest_file w"
    by simp_all
  from handle_force_result [OF forcing s1(2) s1(1)] s1(3)
  have s2: "manifest self2 = Some ?m" "manifest_file w2 = manifest_file w"
    by simp_all
  let ?self = "resolve_threads E opts self2"
  from s2 resolve_threads_frame [of E opts self2]
  have s3: "manifest ?self = Some ?m" by simp
  from handle_pool_result [OF pool] obtain w2' where
    loop: "process_paths E (get_content_paths E) ([], None) (?self, w2') = (vars, (self3, w3))"
    and w2': "manifest_file w2' = manifest_file w2"
    by blast
  from process_paths_dirty [OF s3 loop] obtain m3 where
    m3: "manifest_file w3 = manifest_file w2'" "manifest self3 = Some m3"
        "\<not> is_dirty m3 \<longrightarrow> items m3 = items ?m"
    by blast
  from handle_report_result [OF report] m3(2)
  have fin: "self' = self3"
    "manifest_file w' = (if is_dirty m3 then Some (items m3) else manifest_file w3)"
    by simp_all
  have persisted: "(case manifest_file w' of None \<Rightarrow> Map.empty | Some f \<Rightarrow> f) = items m3"
  proof (cases "is_dirty m3")
    case True
    with fin(2) show ?thesis by simp
  next
    case False
    with m3(3) have "items m3 = (case manifest_file w of None \<Rightarrow> Map.empty | Some m \<Rightarrow> m)"
      by simp
    with False fin(2) m3(1) w2' s2(2) show ?thesis by simp
  qed
  have "\<forall>p\<in>set (get_content_paths E). recorded E m3 p"
    if ok: "\<forall>p\<in>set (get_content_paths E).
              \<not> isl (render_html E p) \<and> write_text_error E (generated_file_path E p) = None"
  proof -
    have "\<forall>q\<in>{}. recorded E ?m q" by simp
    from process_paths_records [OF s3 ok this loop] m3(2) show ?thesis by simp
  qed
  with persisted fin(1) m3(2) show ?thesis by simp
qed

text \<open>
  When every discovered file renders and is written, building twice is a no-op the
  second time. A build ends without exception; then a second build is run on the
  state the first one left, without \<^verbatim>\<open>--force\<close>, with the same files and fingerprints
  and unchanged static files, and ends without exception. The second build counts
  no file as created or updated, leaves its manifest clean and makes no call at
  all: no rendering, no \<^verbatim>\<open>add\<close> and no write of the manifest file.
\<close>

lemma second_build_is_noop:
  assumes "handle E opts (self, w) = (None, (self1, w1))"
    and "\<forall>p\<in>set (get_content_paths E).
           \<not> isl (render_html E p) \<and> write_text_error E (generated_file_path E p) = None"
    and "fingerprint E' = fingerprint E"
    and "get_content_paths E' = get_content_paths E"
    and "\<not> force opts'"
    and "\<not> static_set_changed E'"
    and "handle E' opts' (self1, w1) = (None, (self2, w2))"
  shows "create_count (output_result_counts self2) = 0
         \<and> update_count (output_result_counts self2) = 0
         \<and> (\<exists>m. manifest self2 = Some m \<and> \<not> is_dirty m)
         \<and> calls w2 = calls w1
         \<and> CallWriteData \<notin> set (drop (length (calls w1)) (calls w2))
         \<and> manifest_file w2 = manifest_file w1"
proof -
  from handle_persists [OF assms(1)] assms(2) obtain m1 where
    m1: "(case manifest_file w1 of None \<Rightarrow> Map.empty | Some f \<Rightarrow> f) = items m1"
        "\<forall>p\<in>set (get_content_paths E). recorded E m1 p"
    by blast
  from handle_completed [OF assms(7)] obtain fut selfa wa selfb wb vars selfc wc where
    start: "handle_start E' opts' (self1, w1) = (Inr fut, (selfa, wa))"
    and forcing: "handle_force opts' fut (selfa, wa) = (None, (selfb, wb))"
    and pool: "handle_pool E' (resolve_threads E' opts' selfb, wb) = (Inr vars, (selfc, wc))"
    and report: "handle_report E' vars (selfc, wc) = (None, (self2, w2))"
    by blast
  let ?m = "\<lparr>items = items m1, is_dirty = False, static_files_manifest_changed = static_set_changed E'\<rparr>"
  from handle_start_result [OF start] m1(1)
  have sa: "\<not> is_force selfa" "manifest selfa = Some ?m" "manifest_file wa = manifest_file w1"
    "calls wa = calls w1"
    "output_result_counts selfa = \<lparr>create_count = 0, update_count = 0, skip_count = 0\<rparr>"
    by simp_all
  from handle_force_result [OF forcing sa(2) sa(1)] sa assms(5) assms(6)
  have sb: "\<not> is_force selfb" "manifest selfb = Some ?m" "manifest_file wb = manifest_file w1"
    "calls wb = calls w1"
    "output_result_counts selfb = \<lparr>create_count = 0, update_count = 0, skip_count = 0\<rparr>"
    by simp_all
  let ?self = "resolve_threads E' opts' selfb"
  from sb resolve_threads_frame [of E' opts' selfb]
  have sc: "\<not> is_force ?self" "manifest ?self = Some ?m"
    "output_result_counts ?self = \<lparr>create_count = 0, update_count = 0, skip_count = 0\<rparr>"
    by simp_all
  from handle_pool_result [OF pool] obtain wb' where
    loop: "process_paths E' (get_content_paths E') ([], None) (?self, wb') = (vars, (selfc, wc))"
    and wb': "calls wb' = calls wb" "manifest_file wb' = manifest_file wb"
    by blast
  from m1(2) assms(3) assms(4)
  have cur: "\<forall>p\<in>set (get_content_paths E'). recorded E' ?m p"
    by (auto simp: recorded_def split: sum.splits)
  from process_paths_recorded [OF sc(2) sc(1) cur loop] sc(3)
  have sd: "manifest selfc = Some ?m" "wc = wb'"
    "create_count (output_result_counts selfc) = 0" "update_count (output_result_counts selfc) = 0"
    by simp_all
  from handle_report_result [OF report] sd(1)
  have fin: "self2 = selfc" "calls w2 = calls wc" "manifest_file w2 = manifest_file wc"
    by simp_all
  from fin sd wb' sb show ?thesis by simp
qed

lemma second_build_is_noop_example:
  "fst (handle (example_env [''a''] [] 1 8) no_options (Command_new, example_world None)) = None
   \<and> get_content_paths (example_env [''a''] [] 1 8) = [''a'']
   \<and> \<not> isl (render_html (example_env [''a''] [] 1 8) ''a'')
   \<and> write_text_error (example_env [''a''] [] 1 8)
         (generated_file_path (example_env [''a''] [] 1 8) ''a'') = None
   \<and> \<not> force no_options
   \<and> \<not> static_set_changed (example_env [''a''] [] 1 8)
   \<and> fst (handle (example_env [''a''] [] 1 8) no_options
             (snd (handle (example_env [''a''] [] 1 8) no_options (Command_new, example_world None)))) = None
   \<and> create_count (output_result_counts (fst (snd
        (handle (example_env [''a''] [] 1 8) no_options
           (snd (handle (example_env [''a''] [] 1 8) no_options (Command_new, example_world None))))))) = 0
   \<and> update_count (output_result_counts (fst (snd
        (handle (example_env [''a''] [] 1 8) no_options
           (snd (handle (example_env [''a''] [] 1 8) no_options (Command_new, example_world None))))))) = 0
   \<and> calls (snd (snd
        (handle (example_env [''a''] [] 1 8) no_options
           (snd (handle (example_env [''a''] [] 1 8) no_options (Command_new, example_world None))))))
      = calls (snd (snd (handle (example_env [''a''] [] 1 8) no_options (Command_new, example_world None))))"
proof -
  let ?E = "example_env [''a''] [] 1 8"
  let ?R1 = "handle ?E no_options (Command_new, example_world None)"
  let ?R2 = "handle ?E no_options (snd ?R1)"
  have one: "fst ?R1 = None"
    by code_simp
  then have r1: "?R1 = (None, (fst (snd ?R1), snd (snd ?R1)))"
    by (metis prod.collapse)
  have two: "fst ?R2 = None"
    by code_simp
  then have r2: "handle ?E no_options (fst (snd ?R1), snd (snd ?R1)) = (None, (fst (snd ?R2), snd (snd ?R2)))"
    by (metis prod.collapse)
  have ok: "\<forall>p\<in>set (get_content_paths ?E).
              \<not> isl (render_html ?E p) \<and> write_text_error ?E (generated_file_path ?E p) = None"
    by (simp add: example_env_def)
  have nf: "\<not> force no_options"
    by (simp add: no_options_def)
  have ns: "\<not> static_set_changed ?E"
    by (simp add: example_env_def)
  have files: "get_content_paths ?E = [''a'']"
    "\<not> isl (render_html ?E ''a'')"
    "write_text_error ?E (generated_file_path ?E ''a'') = None"
    by (simp_all add: example_env_def)
  from second_build_is_noop [OF r1 ok refl refl nf ns r2] one two files nf ns
  show ?thesis by simp
qed

text \<open>
  C4, at a failing input. Two files are discovered, no manifest file exists, and \<open>b\<close>
  fails to render. The site is built twice, without \<^verbatim>\<open>--force\<close> and with nothing
  changed in between, and both builds end without exception. The second build
  skips \<open>a\<close>, leaves the manifest clean and does not write the manifest file; but it
  counts 1 created file, not 0: \<open>b\<close>, which the first build could not record, is
  counted again before \<^verbatim>\<open>render_html\<close> raises again.
\<close>

theorem second_build_counts_failed_file_again:
  "fst (handle (example_env [''a'', ''b''] [''b''] 1 8) no_options (Command_new, example_world None)) = None
   \<and> fst (handle (example_env [''a'', ''b''] [''b''] 1 8) no_options
             (snd (handle (example_env [''a'', ''b''] [''b''] 1 8) no_options
                     (Command_new, example_world None)))) = None
   \<and> output_result_counts
        (fst (snd (handle (example_env [''a'', ''b''] [''b''] 1 8) no_options
                     (snd (handle (example_env [''a'', ''b''] [''b''] 1 8) no_options
                             (Command_new, example_world None))))))
      = \<lparr>create_count = 1, update_count = 0, skip_count = 1\<rparr>
   \<and> drop (length (calls (snd (snd (handle (example_env [''a'', ''b''] [''b''] 1 8) no_options
                                       (Command_new, example_world None))))))
        (calls (snd (snd (handle (example_env [''a'', ''b''] [''b''] 1 8) no_options
                            (snd (handle (example_env [''a'', ''b''] [''b''] 1 8) no_options
                                    (Command_new, example_world None)))))))
      = [CallRender ''b'']
   \<and> map_option is_dirty
        (manifest (fst (snd (handle (example_env [''a'', ''b''] [''b''] 1 8) no_options
                               (snd (handle (example_env [''a'', ''b''] [''b''] 1 8) no_options
                                       (Command_new, example_world None)))))))
      = Some False"
  by code_simp

section \<open>The executor builds one file at a time\<close>

lemma busy_positive:
  "Some t \<in> set ws \<Longrightarrow> 0 < busy ws"
  unfolding busy_def by (induction ws) auto

lemma busy_take:
  "i < length ws \<Longrightarrow> ws ! i = None \<Longrightarrow> busy (ws[i := Some t]) = Suc (busy ws)"
  unfolding busy_def
proof (induction ws arbitrary: i)
  case Nil
  then show ?case by simp
next
  case (Cons w ws)
  then show ?case by (cases i) auto
qed

lemma busy_finish:
  "i < length ws \<Longrightarrow> ws ! i = Some t \<Longrightarrow> Suc (busy (ws[i := None])) = busy ws"
  unfolding busy_def
proof (induction ws arbitrary: i)
  case Nil
  then show ?case by simp
next
  case (Cons w ws)
  then show ?case by (cases i) auto
qed

lemma busy_replicate: "busy (replicate n None) = 0"
  by (simp add: busy_def)

lemma in_flight_none:
  assumes "in_flight c = 0"
  shows "work_queue c = [] \<and> (\<forall>t. Some t \<notin> set (workers c))"
proof -
  from assms have q: "work_queue c = []" and b: "busy (workers c) = 0"
    by (simp_all add: in_flight_def)
  from b busy_positive [of _ "workers c"] have "\<forall>t. Some t \<notin> set (workers c)"
    by fastforce
  with q show ?thesis by simp
qed

lemma pool_inv_init: "pool_inv (pool_init n paths s)"
  by (simp add: pool_inv_def pool_init_def in_flight_def busy_replicate)

lemma pool_finish_init: "pool_finish E (pool_init n paths s) = process_paths E paths ([], None) s"
  by (simp add: pool_finish_def pool_init_def)

lemma pool_finish_done: "pool_done c \<Longrightarrow> pool_finish E c = (loop_vars c, shared c)"
  by (simp add: pool_finish_def pool_done_def)

lemma pool_finish_cong:
  assumes "pending c' = pending c" and "waiting c' = waiting c" and "futures c' = futures c"
    and "loop_vars c' = loop_vars c" and "shared c' = shared c"
  shows "pool_finish E c' = pool_finish E c"
  using assms by (simp add: pool_finish_def split: option.splits prod.splits)

text \<open>A step keeps the invariant and the loop the configuration stands for.\<close>

lemma pool_step_inv:
  assumes "pool_step E c c'"
    and "pool_inv c"
  shows "pool_inv c' \<and> pool_finish E c' = pool_finish E c"
  using assms
proof (induction rule: pool_step.induct)
  case (submit c p rest)
  from submit have "in_flight c = 0"
    by (simp add: pool_inv_def)
  from in_flight_none [OF this] have idle: "work_queue c = []" "\<forall>t. Some t \<notin> set (workers c)"
    by simp_all
  from submit have fresh: "futures c (next_future c) = None"
    by (simp add: pool_inv_def)
  from submit have later: "\<forall>k. next_future c \<le> k \<longrightarrow> futures c k = None"
    by (simp add: pool_inv_def)
  from \<open>in_flight c = 0\<close> idle fresh later have "pool_inv
     (c\<lparr>pending := rest, waiting := Some (next_future c, p),
        work_queue := work_queue c @ [(next_future c, p)], next_future := Suc (next_future c)\<rparr>)"
    by (simp add: pool_inv_def in_flight_def)
  moreover from submit fresh have "pool_finish E
     (c\<lparr>pending := rest, waiting := Some (next_future c, p),
        work_queue := work_queue c @ [(next_future c, p)], next_future := Suc (next_future c)\<rparr>)
     = pool_finish E c"
    by (simp add: pool_finish_def)
  ultimately show ?case by simp
next
  case (take i c t q)
  have sub: "set ((workers c)[i := Some t]) \<subseteq> insert (Some t) (set (workers c))"
    by (rule set_update_subset_insert)
  from take have old: "\<forall>u. u \<in> set (work_queue c) \<or> Some u \<in> set (workers c)
            \<longrightarrow> waiting c = Some u \<and> futures c (fst u) = None"
    by (simp add: pool_inv_def)
  have new: "\<forall>u. u \<in> set q \<or> Some u \<in> set ((workers c)[i := Some t])
            \<longrightarrow> waiting c = Some u \<and> futures c (fst u) = None"
  proof (intro allI impI)
    fix u assume "u \<in> set q \<or> Some u \<in> set ((workers c)[i := Some t])"
    with sub take(3) have "u \<in> set (work_queue c) \<or> Some u \<in> set (workers c)"
      by auto
    with old show "waiting c = Some u \<and> futures c (fst u) = None" by blast
  qed
  from take busy_take [OF take(1) take(2), of t]
  have count: "in_flight (c\<lparr>workers := (workers c)[i := Some t], work_queue := q\<rparr>) = in_flight c"
    by (simp add: in_flight_def)
  from take new count have "pool_inv (c\<lparr>workers := (workers c)[i := Some t], work_queue := q\<rparr>)"
    by (simp add: pool_inv_def)
  moreover have "pool_finish E (c\<lparr>workers := (workers c)[i := Some t], work_queue := q\<rparr>) = pool_finish E c"
    by (rule pool_finish_cong) simp_all
  ultimately show ?case by simp
next
  case (finish i c k p r s')
  from finish(1) finish(2) have mem: "Some (k, p) \<in> set (workers c)"
    by (metis nth_mem)
  with finish(4) have w: "waiting c = Some (k, p)" and f: "futures c k = None"
    by (auto simp: pool_inv_def)
  from finish(4) w f have one: "in_flight c = 1" and lt: "k < next_future c"
    and later: "\<forall>j. next_future c \<le> j \<longrightarrow> futures c j = None"
    by (simp_all add: pool_inv_def)
  let ?c' = "c\<lparr>workers := (workers c)[i := None], futures := (futures c)(k \<mapsto> r), shared := s'\<rparr>"
  from one have "length (work_queue c) + busy (workers c) = 1"
    by (simp add: in_flight_def)
  with busy_finish [OF finish(1) finish(2)]
  have "length (work_queue c) + busy ((workers c)[i := None]) = 0"
    by linarith
  then have zero: "in_flight ?c' = 0"
    by (simp add: in_flight_def)
  from in_flight_none [OF zero] have idle: "work_queue ?c' = []" "\<forall>t. Some t \<notin> set (workers ?c')"
    by simp_all
  from zero idle w lt later have "pool_inv ?c'"
    by (simp add: pool_inv_def)
  moreover from w f finish(3) have "pool_finish E ?c' = pool_finish E c"
    by (cases r) (simp_all add: pool_finish_def)
  ultimately show ?case by simp
next
  case (resume c k p r)
  from resume have zero: "in_flight c = 0"
    and later: "\<forall>j. next_future c \<le> j \<longrightarrow> futures c j = None"
    by (simp_all add: pool_inv_def)
  let ?c' = "c\<lparr>waiting := None,
          loop_vars :=
            (case r of
               None \<Rightarrow> loop_vars c
             | Some error \<Rightarrow>
                 (fst (loop_vars c) @ [error_message_of p error], Some (error_message_of p error)))\<rparr>"
  from zero have zero': "in_flight ?c' = 0"
    by (simp add: in_flight_def)
  from in_flight_none [OF zero] have idle: "work_queue c = []" "\<forall>t. Some t \<notin> set (workers c)"
    by simp_all
  from zero' idle later have "pool_inv ?c'"
    by (simp add: pool_inv_def)
  moreover from resume have "pool_finish E ?c' = pool_finish E c"
    by (simp add: pool_finish_def)
  ultimately show ?case by simp
qed

lemma pool_steps_inv:
  assumes "(pool_step E)\<^sup>*\<^sup>* (pool_init n paths s) c"
  shows "pool_inv c \<and> pool_finish E c = process_paths E paths ([], None) s"
  using assms
proof (induction rule: rtranclp_induct)
  case base
  show ?case by (simp add: pool_inv_init pool_finish_init)
next
  case (step c c')
  with pool_step_inv [of E c c'] show ?case by simp
qed

lemma pool_inv_in_flight: "pool_inv c \<Longrightarrow> in_flight c \<le> 1"
  by (simp add: pool_inv_def)

text \<open>Every configuration an executor reaches gives the loop's result when the loop has ended.\<close>

lemma pool_steps_result:
  assumes "(pool_step E)\<^sup>*\<^sup>* (pool_init n paths s) c"
    and "pool_done c"
  shows "(loop_vars c, shared c) = process_paths E paths ([], None) s"
  using pool_steps_inv [OF assms(1)] pool_finish_done [OF assms(2), of E] by simp

text \<open>With at least one worker the loop ends: each file is submitted, taken, built and waited for.\<close>

lemma pool_can_finish:
  assumes "0 < n"
    and "pending c = ps"
    and "waiting c = None"
    and "work_queue c = []"
    and "workers c = replicate n None"
  shows "\<exists>c'. (pool_step E)\<^sup>*\<^sup>* c c' \<and> pool_done c'"
  using assms(2-)
proof (induction ps arbitrary: c)
  case Nil
  then have "pool_done c" by (simp add: pool_done_def)
  then show ?case by blast
next
  case (Cons p rest)
  let ?k = "next_future c"
  let ?c1 = "c\<lparr>pending := rest, waiting := Some (?k, p),
                work_queue := work_queue c @ [(?k, p)], next_future := Suc ?k\<rparr>"
  let ?c2 = "?c1\<lparr>workers := (workers ?c1)[0 := Some (?k, p)], work_queue := []\<rparr>"
  obtain r s' where built: "output_markdown_file E p (shared ?c2) = (r, s')"
    by (metis prod.exhaust)
  let ?c3 = "?c2\<lparr>workers := (workers ?c2)[0 := None], futures := (futures ?c2)(?k \<mapsto> r), shared := s'\<rparr>"
  let ?c4 = "?c3\<lparr>waiting := None,
                loop_vars :=
                  (case r of
                     None \<Rightarrow> loop_vars ?c3
                   | Some error \<Rightarrow>
                       (fst (loop_vars ?c3) @ [error_message_of p error], Some (error_message_of p error)))\<rparr>"
  from Cons.prems have 1: "pool_step E c ?c1"
    by (intro pool_step.submit) simp_all
  from Cons.prems assms(1) have 2: "pool_step E ?c1 ?c2"
    by (intro pool_step.take) simp_all
  from Cons.prems assms(1) built have 3: "pool_step E ?c2 ?c3"
    by (intro pool_step.finish [where k = ?k and p = p]) simp_all
  have 4: "pool_step E ?c3 ?c4"
    by (intro pool_step.resume [where k = ?k]) simp_all
  from 1 2 3 4 have run: "(pool_step E)\<^sup>*\<^sup>* c ?c4"
    by (meson rtranclp.rtrancl_into_rtrancl rtranclp.rtrancl_refl)
  from Cons.prems assms(1) have "workers ?c4 = replicate n None"
    by (cases n) simp_all
  with Cons.IH [of ?c4] obtain c' where "(pool_step E)\<^sup>*\<^sup>* ?c4 c'" and "pool_done c'"
    by auto
  with run show ?case
    by (meson rtranclp_trans)
qed

text \<open>
  The loop of the command is \<open>process_paths\<close>; so what the command's third phase
  returns is what any executor returns that runs the loop from the same state.
\<close>

lemma handle_pool_executor:
  assumes "handle_pool E (self, w) = (Inr vars, s')"
    and "(pool_step E)\<^sup>*\<^sup>*
           (pool_init n (get_content_paths E)
              (self, say (SpinnerText (threads_text (threads_count self)))
                       (say (SpinnerStart ''Create HTML files'') w))) c"
    and "pool_done c"
  shows "loop_vars c = vars \<and> shared c = s'"
proof -
  from assms(1) have "process_paths E (get_content_paths E) ([], None)
           (self, say (SpinnerText (threads_text (threads_count self)))
                    (say (SpinnerStart ''Create HTML files'') w)) = (vars, s')"
    by (simp add: handle_pool_def Let_def split: if_splits prod.splits)
  with pool_steps_result [OF assms(2) assms(3)] show ?thesis
    by simp
qed

text \<open>
  C9. Whatever the number of workers, in every configuration the executor reaches at
  most one file is queued or being built, and when the loop has ended its variables
  and the state are those of \<open>process_paths\<close>, the loop that builds the discovered
  files one after the other in their order; with at least one worker (the executor
  refuses to be made with none) the loop does end.
\<close>

theorem executor_builds_files_in_sequence:
  "(\<forall>c. (pool_step E)\<^sup>*\<^sup>* (pool_init n paths s) c \<longrightarrow>
          in_flight c \<le> 1
          \<and> (pool_done c \<longrightarrow> (loop_vars c, shared c) = process_paths E paths ([], None) s))
   \<and> (0 < n \<longrightarrow> (\<exists>c. (pool_step E)\<^sup>*\<^sup>* (pool_init n paths s) c \<and> pool_done c))"
proof (intro conjI allI impI)
  fix c assume "(pool_step E)\<^sup>*\<^sup>* (pool_init n paths s) c"
  from pool_steps_inv [OF this] show "in_flight c \<le> 1"
    by (blast intro: pool_inv_in_flight)
next
  fix c assume "(pool_step E)\<^sup>*\<^sup>* (pool_init n paths s) c" and "pool_done c"
  then show "(loop_vars c, shared c) = process_paths E paths ([], None) s"
    by (rule pool_steps_result)
next
  assume "0 < n"
  then show "\<exists>c. (pool_step E)\<^sup>*\<^sup>* (pool_init n paths s) c \<and> pool_done c"
    by (rule pool_can_finish) (simp_all add: pool_init_def)
qed

theorem executor_builds_files_in_sequence_witness:
  "\<exists>c. (pool_step (example_env [''a'', ''b''] [''b''] 1 8))\<^sup>*\<^sup>*
          (pool_init 8 [''a'', ''b''] (example_command 1 ''a'', example_world None)) c
        \<and> pool_done c
        \<and> in_flight c \<le> 1
        \<and> loop_vars c = ([error_message_of ''b'' (Exn ''ValueError'' ''bad'')],
                           Some (error_message_of ''b'' (Exn ''ValueError'' ''bad'')))
        \<and> output_result_counts (fst (shared c)) = \<lparr>create_count = 1, update_count = 0, skip_count = 1\<rparr>"
proof -
  let ?E = "example_env [''a'', ''b''] [''b''] 1 8"
  let ?s = "(example_command 1 ''a'', example_world None)"
  have seq: "fst (process_paths ?E [''a'', ''b''] ([], None) ?s)
               = ([error_message_of ''b'' (Exn ''ValueError'' ''bad'')],
                  Some (error_message_of ''b'' (Exn ''ValueError'' ''bad'')))
             \<and> output_result_counts (fst (snd (process_paths ?E [''a'', ''b''] ([], None) ?s)))
               = \<lparr>create_count = 1, update_count = 0, skip_count = 1\<rparr>"
    by code_simp
  note inst = executor_builds_files_in_sequence [of ?E 8 "[''a'', ''b'']" ?s]
  from inst obtain c where run: "(pool_step ?E)\<^sup>*\<^sup>* (pool_init 8 [''a'', ''b''] ?s) c"
    and fin: "pool_done c"
    by auto
  from inst run fin have "in_flight c \<le> 1"
    and "(loop_vars c, shared c) = process_paths ?E [''a'', ''b''] ([], None) ?s"
    by blast+
  with seq run fin show ?thesis
    by (metis fst_conv snd_conv)
qed

section \<open>The order of the files\<close>

lemma output_markdown_file_core:
  assumes "manifest self = Some m"
    and "output_markdown_file E p (self, w) = (r, (self', w'))"
  shows "\<exists>m'. manifest self' = Some m'
              \<and> (m', output_result_counts self') = core_step E (is_force self) p (m, output_result_counts self)"
  using assms
  by (auto simp: output_markdown_file_defs core_step_def renders_def Let_def
           split: option.splits sum.splits if_splits prod.splits)

lemma process_paths_core:
  assumes "manifest self = Some m"
    and "process_paths E ps vars (self, w) = (vars', (self', w'))"
  shows "\<exists>m'. manifest self' = Some m'
              \<and> (m', output_result_counts self')
                  = fold (core_step E (is_force self)) ps (m, output_result_counts self)"
  using assms
proof (induction ps arbitrary: vars self w m)
  case Nil
  then show ?case by simp
next
  case (Cons p ps)
  obtain r self1 w1 where step: "output_markdown_file E p (self, w) = (r, (self1, w1))"
    by (metis prod.exhaust)
  from output_markdown_file_core [OF Cons.prems(1) step] obtain m1 where
    m1: "manifest self1 = Some m1"
    and c1: "(m1, output_result_counts self1) = core_step E (is_force self) p (m, output_result_counts self)"
    by blast
  from output_markdown_file_frame [OF step] have f1: "is_force self1 = is_force self"
    by simp
  from Cons.prems(2) step
  obtain vars1 where rest: "process_paths E ps vars1 (self1, w1) = (vars', (self', w'))"
    by (cases r) auto
  from Cons.IH [OF m1 rest] f1 c1 show ?case by simp
qed

lemma process_paths_unloaded:
  assumes "manifest self = None"
  shows "snd (process_paths E ps vars (self, w)) = (self, w)"
  using assms
  by (induction ps arbitrary: vars) (simp_all add: output_markdown_file_def)

text \<open>The steps of two files commute.\<close>

lemma core_step_commute:
  "core_step E forced p (core_step E forced q mc) = core_step E forced q (core_step E forced p mc)"
proof (cases "p = q")
  case True
  then show ?thesis by simp
next
  case False
  obtain m c where mc: "mc = (m, c)" by (cases mc)
  from False show ?thesis
    unfolding mc
    by (cases "fingerprint E p"; cases "fingerprint E q"; cases "items m p"; cases "items m q";
        cases c)
       (auto simp: core_step_def Let_def fun_upd_twist)
qed

lemma fold_core_step_mset:
  assumes "mset ps = mset qs"
  shows "fold (core_step E forced) ps = fold (core_step E forced) qs"
  using _ assms
  by (rule fold_multiset_equiv) (auto simp: core_step_commute)

text \<open>
  The counters and the manifest at the end of the loop are the same for every order
  of the same files.
\<close>

lemma process_paths_order:
  assumes "mset ps = mset qs"
    and "process_paths E ps vars (self, w) = (vars1, (self1, w1))"
    and "process_paths E qs vars (self, w) = (vars2, (self2, w2))"
  shows "output_result_counts self1 = output_result_counts self2 \<and> manifest self1 = manifest self2"
proof (cases "manifest self")
  case None
  from process_paths_unloaded [OF None, of E ps vars w] process_paths_unloaded [OF None, of E qs vars w]
    assms(2) assms(3)
  show ?thesis by simp
next
  case (Some m)
  from process_paths_core [OF Some assms(2)] obtain m1 where
    m1: "manifest self1 = Some m1"
    "(m1, output_result_counts self1) = fold (core_step E (is_force self)) ps (m, output_result_counts self)"
    by blast
  from process_paths_core [OF Some assms(3)] obtain m2 where
    m2: "manifest self2 = Some m2"
    "(m2, output_result_counts self2) = fold (core_step E (is_force self)) qs (m, output_result_counts self)"
    by blast
  from m1(2) m2(2) fold_core_step_mset [OF assms(1), of E "is_force self"]
  have "(m1, output_result_counts self1) = (m2, output_result_counts self2)"
    by simp
  with m1(1) m2(1) show ?thesis by simp
qed

section \<open>The number of threads does not change the result\<close>

lemma agree_refl: "agree s s"
  by (simp add: agree_def)

lemma agree_update:
  assumes "agree (self, w) (self', w')"
  shows "self' = self\<lparr>threads_count := threads_count self'\<rparr> \<and> w' = w\<lparr>console := console w'\<rparr>"
  using assms by (cases self; cases self'; cases w; cases w') (simp add: agree_def)

lemma output_markdown_file_update:
  "output_markdown_file E p (self\<lparr>threads_count := t\<rparr>, w\<lparr>console := cs\<rparr>) =
     (case output_markdown_file E p (self, w) of
        (r, (self', w')) \<Rightarrow> (r, (self'\<lparr>threads_count := t\<rparr>, w'\<lparr>console := cs\<rparr>)))"
  by (simp add: output_markdown_file_defs Let_def split: option.splits sum.splits prod.splits)

lemma agree_output_markdown_file:
  assumes "agree s t"
  shows "fst (output_markdown_file E p s) = fst (output_markdown_file E p t)
         \<and> agree (snd (output_markdown_file E p s)) (snd (output_markdown_file E p t))"
proof -
  obtain self w where s: "s = (self, w)" by (cases s)
  obtain self' w' where t: "t = (self', w')" by (cases t)
  obtain r self1 w1 where step: "output_markdown_file E p (self, w) = (r, (self1, w1))"
    by (metis prod.exhaust)
  from assms agree_update [of self w self' w'] s t
  have "t = (self\<lparr>threads_count := threads_count self'\<rparr>, w\<lparr>console := console w'\<rparr>)"
    by simp
  with output_markdown_file_update
         [where E = E and p = p and self = self and t = "threads_count self'" and w = w
            and cs = "console w'"] step
  have "output_markdown_file E p t =
          (r, (self1\<lparr>threads_count := threads_count self'\<rparr>, w1\<lparr>console := console w'\<rparr>))"
    by simp
  with step s show ?thesis
    by (simp add: agree_def)
qed

lemma agree_process_paths:
  assumes "agree s t"
  shows "fst (process_paths E ps vars s) = fst (process_paths E ps vars t)
         \<and> agree (snd (process_paths E ps vars s)) (snd (process_paths E ps vars t))"
  using assms
proof (induction ps arbitrary: vars s t)
  case Nil
  then show ?case by simp
next
  case (Cons p ps)
  obtain r s1 where a: "output_markdown_file E p s = (r, s1)"
    by (metis prod.exhaust)
  obtain r' t1 where b: "output_markdown_file E p t = (r', t1)"
    by (metis prod.exhaust)
  from agree_output_markdown_file [OF Cons.prems, of E p] a b
  have same: "r' = r" and ag: "agree s1 t1"
    by simp_all
  from Cons.IH [OF ag] a b same show ?case
    by (cases r) simp_all
qed

lemma agree_say: "agree (self, w) (self', w') \<Longrightarrow> agree (self, say ev w) (self', say ev' w')"
  by (simp add: agree_def say_frame)

lemma handle_start_threads: "handle_start E (opts\<lparr>threads := x\<rparr>) s = handle_start E opts s"
  by (simp add: handle_start_def set_output_directory_def)

lemma handle_force_threads: "handle_force (opts\<lparr>threads := x\<rparr>) fut s = handle_force opts fut s"
  by (simp add: handle_force_def)

lemma agree_resolve_threads:
  "agree (resolve_threads E opts self, w) (resolve_threads E opts' self, w)"
  using resolve_threads_frame [of E opts self] resolve_threads_frame [of E opts' self]
  by (simp add: agree_def)

lemma agree_handle_pool:
  assumes "agree s t"
    and "0 < threads_count (fst s)"
    and "0 < threads_count (fst t)"
  shows "fst (handle_pool E s) = fst (handle_pool E t)
         \<and> agree (snd (handle_pool E s)) (snd (handle_pool E t))"
proof -
  obtain self w where s: "s = (self, w)" by (cases s)
  obtain self' w' where t: "t = (self', w')" by (cases t)
  let ?s2 = "(self, say (SpinnerText (threads_text (threads_count self))) (say (SpinnerStart ''Create HTML files'') w))"
  let ?t2 = "(self', say (SpinnerText (threads_text (threads_count self'))) (say (SpinnerStart ''Create HTML files'') w'))"
  from assms(1) s t have "agree ?s2 ?t2"
    by (intro agree_say) simp
  from agree_process_paths [OF this, of E "get_content_paths E" "([], None)"] assms(2) assms(3) s t
  show ?thesis
    by (simp add: handle_pool_def Let_def case_prod_beta)
qed

lemma report_errors_agree:
  assumes "agree (self, w) (self', w')"
  shows "(case report_errors vars w of
            Inl e \<Rightarrow> report_errors vars w' = Inl e
          | Inr w2 \<Rightarrow> (\<exists>w2'. report_errors vars w' = Inr w2' \<and> agree (self, w2) (self', w2')))"
  using assms
  by (auto simp: report_errors_def agree_def split: list.splits option.splits)

lemma agree_update_manifest:
  assumes "agree s t"
  shows "fst (update_manifest E s) = fst (update_manifest E t)
         \<and> agree (snd (update_manifest E s)) (snd (update_manifest E t))"
proof -
  obtain self w where s: "s = (self, w)" by (cases s)
  obtain self' w' where t: "t = (self', w')" by (cases t)
  from assms s t show ?thesis
    by (auto simp: update_manifest_def Manifest_write_data_def agree_def say_frame Let_def
             split: option.splits)
qed

lemma agree_handle_report:
  assumes "agree s t"
  shows "fst (handle_report E vars s) = fst (handle_report E vars t)
         \<and> agree (snd (handle_report E vars s)) (snd (handle_report E vars t))"
proof -
  obtain self w where s: "s = (self, w)" by (cases s)
  obtain self' w' where t: "t = (self', w')" by (cases t)
  from assms s t have c: "output_result_counts self' = output_result_counts self"
    by (simp add: agree_def)
  let ?w1 = "say (SpinnerSucceed (Some (result_msg (output_result_counts self)))) w"
  let ?w1' = "say (SpinnerSucceed (Some (result_msg (output_result_counts self)))) w'"
  from assms s t have a1: "agree (self, ?w1) (self', ?w1')"
    by (intro agree_say) simp
  show ?thesis
  proof (cases "report_errors vars ?w1")
    case (Inl e)
    with report_errors_agree [OF a1, of vars] have "report_errors vars ?w1' = Inl e"
      by simp
    with Inl a1 c s t show ?thesis
      by (simp add: handle_report_def Let_def)
  next
    case (Inr w2)
    with report_errors_agree [OF a1, of vars] obtain w2' where
      r': "report_errors vars ?w1' = Inr w2'" and a2: "agree (self, w2) (self', w2')"
      by auto
    obtain r3 self3 w3 where u: "update_manifest E (self, w2) = (r3, (self3, w3))"
      by (metis prod.exhaust)
    obtain r3' self3' w3' where u': "update_manifest E (self', w2') = (r3', (self3', w3'))"
      by (metis prod.exhaust)
    from agree_update_manifest [OF a2, of E] u u'
    have same: "r3' = r3" and a3: "agree (self3, w3) (self3', w3')"
      by simp_all
    from a3 have a4: "agree (self3, say ev2 (say ev1 w3)) (self3', say ev2 (say ev1 w3'))" for ev1 ev2
      by (intro agree_say)
    from Inr r' u u' same a3 a4 c s t show ?thesis
      by (cases r3) (simp_all add: handle_report_def Let_def)
  qed
qed

lemma resolve_threads_given:
  assumes "py_int E (c # cs) = Some n"
  shows "threads_count (resolve_threads E (opts\<lparr>threads := Some (c # cs)\<rparr>) self) = n"
  using assms by (simp add: resolve_threads_def)

text \<open>Two builds that differ in a valid, positive \<^verbatim>\<open>--threads\<close> value end alike.\<close>

lemma handle_agree:
  assumes "py_int E (c # cs) = Some n" and "0 < n"
    and "py_int E (d # ds) = Some k" and "0 < k"
  shows "fst (handle E (opts\<lparr>threads := Some (c # cs)\<rparr>) s)
           = fst (handle E (opts\<lparr>threads := Some (d # ds)\<rparr>) s)
         \<and> agree (snd (handle E (opts\<lparr>threads := Some (c # cs)\<rparr>) s))
                 (snd (handle E (opts\<lparr>threads := Some (d # ds)\<rparr>) s))"
proof -
  let ?o1 = "opts\<lparr>threads := Some (c # cs)\<rparr>"
  let ?o2 = "opts\<lparr>threads := Some (d # ds)\<rparr>"
  obtain r1 s1 where start: "handle_start E opts s = (r1, s1)"
    by (metis prod.exhaust)
  show ?thesis
  proof (cases r1)
    case (Inl e)
    with start show ?thesis
      by (simp add: handle_def handle_start_threads agree_refl)
  next
    case (Inr fut)
    obtain r2 s2 where forcing: "handle_force opts fut s1 = (r2, s2)"
      by (metis prod.exhaust)
    show ?thesis
    proof (cases r2)
      case (Some e)
      with start Inr forcing show ?thesis
        by (simp add: handle_def handle_start_threads handle_force_threads agree_refl)
    next
      case None
      let ?a = "(resolve_threads E ?o1 (fst s2), snd s2)"
      let ?b = "(resolve_threads E ?o2 (fst s2), snd s2)"
      have ag: "agree ?a ?b"
        by (rule agree_resolve_threads)
      from resolve_threads_given [OF assms(1), where opts = opts and self = "fst s2"] assms(2)
      have pa: "0 < threads_count (fst ?a)" by simp
      from resolve_threads_given [OF assms(3), where opts = opts and self = "fst s2"] assms(4)
      have pb: "0 < threads_count (fst ?b)" by simp
      obtain r3 s3 where pool_a: "handle_pool E ?a = (r3, s3)"
        by (metis prod.exhaust)
      obtain r3' s3' where pool_b: "handle_pool E ?b = (r3', s3')"
        by (metis prod.exhaust)
      from agree_handle_pool [OF ag pa pb, of E] pool_a pool_b
      have same: "r3' = r3" and ag3: "agree s3 s3'"
        by simp_all
      have unfold_a: "handle E ?o1 s = (case r3 of Inl e \<Rightarrow> (Some e, s3) | Inr vars \<Rightarrow> handle_report E vars s3)"
        using start Inr forcing None pool_a
        by (simp add: handle_def handle_start_threads handle_force_threads)
      have unfold_b: "handle E ?o2 s = (case r3 of Inl e \<Rightarrow> (Some e, s3') | Inr vars \<Rightarrow> handle_report E vars s3')"
        using start Inr forcing None pool_b same
        by (simp add: handle_def handle_start_threads handle_force_threads)
      show ?thesis
      proof (cases r3)
        case (Inl e)
        with unfold_a unfold_b ag3 show ?thesis by simp
      next
        case (Inr vars)
        with unfold_a unfold_b agree_handle_report [OF ag3, of E vars] show ?thesis by simp
      qed
    qed
  qed
qed

text \<open>
  C8. For the same files and the same state: (1) an executor with 1 worker and one
  with 8 workers both end the loop, and whatever the interleaving they end it with
  the same loop variables and the same state, so the same counters and manifest;
  (2) the command with \<^verbatim>\<open>--threads 1\<close> and with \<^verbatim>\<open>--threads 8\<close> ends with the same
  exception or none, the same counters, manifest, manifest file, generated files and
  calls; (3) the loop over the same files in another order ends with the same
  counters and the same manifest.
\<close>

theorem thread_count_and_order_do_not_matter:
  "(\<exists>c. (pool_step E)\<^sup>*\<^sup>* (pool_init 1 paths s) c \<and> pool_done c)
   \<and> (\<exists>c. (pool_step E)\<^sup>*\<^sup>* (pool_init 8 paths s) c \<and> pool_done c)
   \<and> (\<forall>c1 c8. (pool_step E)\<^sup>*\<^sup>* (pool_init 1 paths s) c1 \<and> pool_done c1
                \<and> (pool_step E)\<^sup>*\<^sup>* (pool_init 8 paths s) c8 \<and> pool_done c8
        \<longrightarrow> loop_vars c1 = loop_vars c8 \<and> shared c1 = shared c8)
   \<and> (handle E (opts\<lparr>threads := Some ''1''\<rparr>) s = (r1, (self1, w1))
        \<and> handle E (opts\<lparr>threads := Some ''8''\<rparr>) s = (r8, (self8, w8))
        \<longrightarrow> r1 = r8 \<and> output_result_counts self1 = output_result_counts self8
            \<and> manifest self1 = manifest self8 \<and> manifest_file w1 = manifest_file w8
            \<and> outputs w1 = outputs w8 \<and> calls w1 = calls w8)
   \<and> (mset ps = mset qs
        \<longrightarrow> output_result_counts (fst (snd (process_paths E ps vars s)))
              = output_result_counts (fst (snd (process_paths E qs vars s)))
            \<and> manifest (fst (snd (process_paths E ps vars s)))
              = manifest (fst (snd (process_paths E qs vars s))))"
proof (intro conjI allI impI)
  show "\<exists>c. (pool_step E)\<^sup>*\<^sup>* (pool_init 1 paths s) c \<and> pool_done c"
    by (rule pool_can_finish [of 1]) (simp_all add: pool_init_def)
  show "\<exists>c. (pool_step E)\<^sup>*\<^sup>* (pool_init 8 paths s) c \<and> pool_done c"
    by (rule pool_can_finish [of 8]) (simp_all add: pool_init_def)
next
  fix c1 c8
  assume runs: "(pool_step E)\<^sup>*\<^sup>* (pool_init 1 paths s) c1 \<and> pool_done c1
                \<and> (pool_step E)\<^sup>*\<^sup>* (pool_init 8 paths s) c8 \<and> pool_done c8"
  then have "(loop_vars c1, shared c1) = process_paths E paths ([], None) s"
    and "(loop_vars c8, shared c8) = process_paths E paths ([], None) s"
    by (blast intro: pool_steps_result)+
  then have "(loop_vars c1, shared c1) = (loop_vars c8, shared c8)"
    by simp
  then show "loop_vars c1 = loop_vars c8" and "shared c1 = shared c8"
    by simp_all
next
  assume both: "handle E (opts\<lparr>threads := Some ''1''\<rparr>) s = (r1, (self1, w1))
        \<and> handle E (opts\<lparr>threads := Some ''8''\<rparr>) s = (r8, (self8, w8))"
  have one: "py_int E ''1'' = Some 1" and eight: "py_int E ''8'' = Some 8"
    by (simp_all add: py_int_def ascii_int_def strip_def is_space_def digit_value_def)
  from handle_agree [OF one _ eight, where opts = opts and s = s] both
  have "r1 = r8 \<and> agree (self1, w1) (self8, w8)"
    by simp
  then show "r1 = r8" and "output_result_counts self1 = output_result_counts self8"
    and "manifest self1 = manifest self8" and "manifest_file w1 = manifest_file w8"
    and "outputs w1 = outputs w8" and "calls w1 = calls w8"
    by (simp_all add: agree_def)
next
  assume perm: "mset ps = mset qs"
  obtain self w where s: "s = (self, w)" by (cases s)
  obtain va sa wa where a: "process_paths E ps vars (self, w) = (va, (sa, wa))"
    by (metis prod.exhaust)
  obtain vb sb wb where b: "process_paths E qs vars (self, w) = (vb, (sb, wb))"
    by (metis prod.exhaust)
  from process_paths_order [OF perm a b] a b s
  show "output_result_counts (fst (snd (process_paths E ps vars s)))
              = output_result_counts (fst (snd (process_paths E qs vars s)))"
    and "manifest (fst (snd (process_paths E ps vars s)))
              = manifest (fst (snd (process_paths E qs vars s)))"
    by simp_all
qed
theorem thread_count_and_order_do_not_matter_witness:
  "(\<exists>c1 c8.
      (pool_step (example_env [''a'', ''b''] [''b''] 1 8))\<^sup>*\<^sup>*
        (pool_init 1 [''a'', ''b''] (example_command 1 ''a'', example_world None)) c1
      \<and> pool_done c1
      \<and> (pool_step (example_env [''a'', ''b''] [''b''] 1 8))\<^sup>*\<^sup>*
          (pool_init 8 [''a'', ''b''] (example_command 1 ''a'', example_world None)) c8
      \<and> pool_done c8
      \<and> loop_vars c1 = loop_vars c8 \<and> shared c1 = shared c8)
   \<and> fst (handle (example_env [''a'', ''b''] [''b''] 1 8) (no_options\<lparr>threads := Some ''1''\<rparr>)
             (example_command 1 ''a'', example_world None))
      = fst (handle (example_env [''a'', ''b''] [''b''] 1 8) (no_options\<lparr>threads := Some ''8''\<rparr>)
               (example_command 1 ''a'', example_world None))
   \<and> output_result_counts
        (fst (snd (handle (example_env [''a'', ''b''] [''b''] 1 8) (no_options\<lparr>threads := Some ''1''\<rparr>)
                     (example_command 1 ''a'', example_world None))))
      = output_result_counts
          (fst (snd (handle (example_env [''a'', ''b''] [''b''] 1 8) (no_options\<lparr>threads := Some ''8''\<rparr>)
                       (example_command 1 ''a'', example_world None))))
   \<and> output_result_counts
        (fst (snd (handle (example_env [''a'', ''b''] [''b''] 1 8) (no_options\<lparr>threads := Some ''8''\<rparr>)
                     (example_command 1 ''a'', example_world None))))
      = \<lparr>create_count = 2, update_count = 0, skip_count = 0\<rparr>
   \<and> mset [''a'', ''b''] = mset [''b'', ''a'']
   \<and> output_result_counts
        (fst (snd (process_paths (example_env [''a'', ''b''] [''b''] 1 8) [''a'', ''b''] ([], None)
                     (example_command 1 ''a'', example_world None))))
      = output_result_counts
          (fst (snd (process_paths (example_env [''a'', ''b''] [''b''] 1 8) [''b'', ''a''] ([], None)
                       (example_command 1 ''a'', example_world None))))"
proof -
  let ?E = "example_env [''a'', ''b''] [''b''] 1 8"
  let ?s = "(example_command 1 ''a'', example_world None)"
  let ?R1 = "handle ?E (no_options\<lparr>threads := Some ''1''\<rparr>) ?s"
  let ?R8 = "handle ?E (no_options\<lparr>threads := Some ''8''\<rparr>) ?s"
  note inst = thread_count_and_order_do_not_matter
    [where E = ?E and paths = "[''a'', ''b'']" and s = ?s and opts = no_options
       and ?r1.0 = "fst ?R1" and ?self1.0 = "fst (snd ?R1)" and ?w1.0 = "snd (snd ?R1)"
       and ?r8.0 = "fst ?R8" and ?self8.0 = "fst (snd ?R8)" and ?w8.0 = "snd (snd ?R8)"
       and ps = "[''a'', ''b'']" and qs = "[''b'', ''a'']" and vars = "([], None)"]
  have perm: "mset [''a'', ''b''] = mset [''b'', ''a'']"
    by (simp add: add_mset_commute)
  have counted: "output_result_counts (fst (snd ?R8)) = \<lparr>create_count = 2, update_count = 0, skip_count = 0\<rparr>"
    by code_simp
  from inst obtain c1 c8 where
    "(pool_step ?E)\<^sup>*\<^sup>* (pool_init 1 [''a'', ''b''] ?s) c1" "pool_done c1"
    "(pool_step ?E)\<^sup>*\<^sup>* (pool_init 8 [''a'', ''b''] ?s) c8" "pool_done c8"
    by blast
  moreover with inst have "loop_vars c1 = loop_vars c8 \<and> shared c1 = shared c8"
    by blast
  ultimately have pools: "\<exists>c1 c8.
      (pool_step ?E)\<^sup>*\<^sup>* (pool_init 1 [''a'', ''b''] ?s) c1 \<and> pool_done c1
      \<and> (pool_step ?E)\<^sup>*\<^sup>* (pool_init 8 [''a'', ''b''] ?s) c8 \<and> pool_done c8
      \<and> loop_vars c1 = loop_vars c8 \<and> shared c1 = shared c8"
    by blast
  from inst have builds: "fst ?R1 = fst ?R8
      \<and> output_result_counts (fst (snd ?R1)) = output_result_counts (fst (snd ?R8))"
    by simp
  from inst perm have orders: "output_result_counts (fst (snd (process_paths ?E [''a'', ''b''] ([], None) ?s)))
      = output_result_counts (fst (snd (process_paths ?E [''b'', ''a''] ([], None) ?s)))"
    by simp
  from pools builds counted perm orders show ?thesis
    by blast
qed

end
